theory Spec2Isabelle
  imports Main
begin

section \<open>Lexer data model\<close>

text \<open>
  Token kinds. The lexer of \<^verbatim>\<open>lex.c\<close> produces the first twenty kinds (the ones listed in
  its \<^verbatim>\<open>lxtype_strings\<close> table); the parser additionally tests for the remaining ones.
\<close>

datatype lxtype =
    LX_SYMBOL | LX_INTEGER | LX_OPERATOR | LX_EOF | LX_COMMENT | LX_NEWLINE | LX_WHITESPACE
  | LX_LEFT_PAREN | LX_RIGHT_PAREN | LX_LEFT_BRACE | LX_RIGHT_BRACE | LX_ASSIGN | LX_STRING
  | LX_FUNCTION | LX_CALL | LX_BLOCK | LX_SEPARATOR | LX_BOOL | LX_NULL | LX_RETURN
  | LX_FLOAT | LX_LOOP | LX_IF | LX_ELSE | LX_INCLUDE | LX_COLON | LX_DOT
  | LX_LEFT_SQUARE | LX_RIGHT_SQUARE

record lxpos =
  col_pos :: int
  line_pos :: int
  char_offset :: int
  line_offset :: int

record lxtoken =
  tk_value :: string
  tk_type :: lxtype
  tk_pos :: lxpos

text \<open>
  The lexer state. \<open>lx_source\<close> holds the characters of the source text in front of the
  terminating NUL. \<open>lx_lookahead\<close> is \<open>None\<close> when the last load went beyond the
  terminating NUL: the loaded byte is not part of the input, and inspecting it is an error of
  the model (\<open>ReadPastEnd\<close>).
\<close>

record lexer =
  lx_pos :: lxpos
  lx_source :: string
  lx_current :: char
  lx_lookahead :: "char option"

datatype lex_error =
    LexError string lxpos   \<comment> \<open>\<^verbatim>\<open>lexerror(lx, msg)\<close>: message and lexer position, then \<^verbatim>\<open>exit(0)\<close>\<close>
  | ReadPastEnd             \<comment> \<open>a byte beyond the terminating NUL of the source is inspected\<close>
  | BufferOverflow          \<comment> \<open>a write beyond the 10000 bytes of \<^verbatim>\<open>buf\<close>\<close>

definition src_at :: "string \<Rightarrow> int \<Rightarrow> char option" where
  "src_at s i =
     (if 0 \<le> i \<and> i < int (length s) then Some (s ! nat i)
      else if i = int (length s) then Some (CHR 0x00)
      else None)"

definition isalpha :: "char \<Rightarrow> bool" where
  "isalpha c = (let n = (of_char c :: nat) in (65 \<le> n \<and> n \<le> 90) \<or> (97 \<le> n \<and> n \<le> 122))"

definition isdigit :: "char \<Rightarrow> bool" where
  "isdigit c = (let n = (of_char c :: nat) in 48 \<le> n \<and> n \<le> 57)"

definition isalnum :: "char \<Rightarrow> bool" where
  "isalnum c = (isalpha c \<or> isdigit c)"

definition clone_pos :: "lxpos \<Rightarrow> lxpos" where
  "clone_pos original =
     \<lparr>col_pos = col_pos original, line_pos = line_pos original,
      char_offset = char_offset original, line_offset = line_offset original\<rparr>"

definition lexer_new :: "string \<Rightarrow> lexer" where
  "lexer_new src =
     \<lparr>lx_pos = \<lparr>col_pos = -1, line_pos = 0, char_offset = -1, line_offset = 0\<rparr>,
      lx_source = src, lx_current = CHR 0x00, lx_lookahead = src_at src 0\<rparr>"

section \<open>Lexer operations\<close>

definition lexadvance :: "lexer \<Rightarrow> lex_error + (char \<times> lexer)" where
  "lexadvance lx =
     (case lx_lookahead lx of
        None \<Rightarrow> Inl ReadPastEnd
      | Some c \<Rightarrow>
          let off = char_offset (lx_pos lx) + 1;
              lx1 = lx\<lparr>lx_current := c,
                       lx_lookahead := src_at (lx_source lx) (off + 1),
                       lx_pos := (lx_pos lx)\<lparr>char_offset := off\<rparr>\<rparr>
          in if c = CHR 0x0A
             then Inr (c, lx1\<lparr>lx_pos := (lx_pos lx1)\<lparr>col_pos := -1,
                                   line_pos := line_pos (lx_pos lx1) + 1,
                                   line_offset := off + 1\<rparr>\<rparr>)
             else Inr (c, lx1\<lparr>lx_pos := (lx_pos lx1)\<lparr>col_pos := col_pos (lx_pos lx1) + 1\<rparr>\<rparr>))"

text \<open>The number of characters the lexer can still consume; every \<open>lexadvance\<close> lowers it.\<close>

definition remaining :: "lexer \<Rightarrow> nat" where
  "remaining lx =
     (case lx_lookahead lx of
        None \<Rightarrow> 0
      | Some _ \<Rightarrow> 1 + nat (int (length (lx_source lx)) - char_offset (lx_pos lx)))"

lemma lexadvance_remaining:
  "lexadvance lx = Inr (c, lx') \<Longrightarrow> remaining lx' < remaining lx"
  by (auto simp: lexadvance_def remaining_def src_at_def Let_def
           split: option.splits if_splits)

lemma lexadvance_source:
  "lexadvance lx = Inr (c, lx') \<Longrightarrow> lx_source lx' = lx_source lx"
  by (auto simp: lexadvance_def Let_def split: option.splits if_splits)

text \<open>\<^verbatim>\<open>buf[len++] = c\<close> on the 10000-byte buffer.\<close>

definition buf_store :: "string \<Rightarrow> char \<Rightarrow> lex_error + string" where
  "buf_store buf c = (if length buf < 10000 then Inr (buf @ [c]) else Inl BufferOverflow)"

text \<open>
  \<^verbatim>\<open>do buf[len++] = lexadvance(lx); while (isalnum(lookahead) || isdigit(lookahead) || lookahead == '_');\<close>
\<close>

function lex_symbol_loop :: "lexer \<Rightarrow> string \<Rightarrow> lex_error + (string \<times> lexer)" where
  "lex_symbol_loop lx buf =
     (case lexadvance lx of
        Inl e \<Rightarrow> Inl e
      | Inr (c, lx') \<Rightarrow>
          (case buf_store buf c of
             Inl e \<Rightarrow> Inl e
           | Inr buf' \<Rightarrow>
               (case lx_lookahead lx' of
                  None \<Rightarrow> Inl ReadPastEnd
                | Some la \<Rightarrow>
                    if isalnum la \<or> isdigit la \<or> la = CHR ''_''
                    then lex_symbol_loop lx' buf'
                    else Inr (buf', lx'))))"
  by pat_completeness auto
termination
  by (relation "measure (\<lambda>(lx, buf). remaining lx)") (auto dest: lexadvance_remaining)

declare lex_symbol_loop.simps [simp del]

text \<open>\<^verbatim>\<open>do buf[len++] = lexadvance(lx); while (isdigit(lookahead));\<close>\<close>

function lex_integer_loop :: "lexer \<Rightarrow> string \<Rightarrow> lex_error + (string \<times> lexer)" where
  "lex_integer_loop lx buf =
     (case lexadvance lx of
        Inl e \<Rightarrow> Inl e
      | Inr (c, lx') \<Rightarrow>
          (case buf_store buf c of
             Inl e \<Rightarrow> Inl e
           | Inr buf' \<Rightarrow>
               (case lx_lookahead lx' of
                  None \<Rightarrow> Inl ReadPastEnd
                | Some la \<Rightarrow>
                    if isdigit la then lex_integer_loop lx' buf' else Inr (buf', lx'))))"
  by pat_completeness auto
termination
  by (relation "measure (\<lambda>(lx, buf). remaining lx)") (auto dest: lexadvance_remaining)

declare lex_integer_loop.simps [simp del]

text \<open>\<^verbatim>\<open>while ((c = lexadvance(lx)) != '"') buf[len++] = c;\<close> The loop has no test for the end of input.\<close>

function lex_string_loop :: "lexer \<Rightarrow> string \<Rightarrow> lex_error + (string \<times> lexer)" where
  "lex_string_loop lx buf =
     (case lexadvance lx of
        Inl e \<Rightarrow> Inl e
      | Inr (c, lx') \<Rightarrow>
          if c \<noteq> CHR 0x22
          then (case buf_store buf c of
                  Inl e \<Rightarrow> Inl e
                | Inr buf' \<Rightarrow> lex_string_loop lx' buf')
          else Inr (buf, lx'))"
  by pat_completeness auto
termination
  by (relation "measure (\<lambda>(lx, buf). remaining lx)") (auto dest: lexadvance_remaining)

declare lex_string_loop.simps [simp del]

text \<open>Determines the lex type of a string symbol.\<close>

definition determine_nature :: "string \<Rightarrow> lxtype" where
  "determine_nature s =
     (if s = ''false'' \<or> s = ''true'' then LX_BOOL
      else if s = ''null'' then LX_NULL
      else if s = ''return'' then LX_RETURN
      else LX_SYMBOL)"

text \<open>
  \<open>check_pattern\<close> first compares the source at the lexer position with the pattern, one
  character at a time, and gives up at the first difference; only on a full match does it
  advance the lexer over the pattern.
\<close>

fun pattern_matches :: "string \<Rightarrow> int \<Rightarrow> string \<Rightarrow> bool option" where
  "pattern_matches src i [] = Some True"
| "pattern_matches src i (p # ps) =
     (case src_at src i of
        None \<Rightarrow> None
      | Some c \<Rightarrow> if c \<noteq> p then Some False else pattern_matches src (i + 1) ps)"

fun lexadvance_times :: "nat \<Rightarrow> lexer \<Rightarrow> lex_error + lexer" where
  "lexadvance_times 0 lx = Inr lx"
| "lexadvance_times (Suc n) lx =
     (case lexadvance lx of Inl e \<Rightarrow> Inl e | Inr (c, lx') \<Rightarrow> lexadvance_times n lx')"

definition check_pattern :: "lexer \<Rightarrow> string \<Rightarrow> lex_error + (bool \<times> lexer)" where
  "check_pattern lx pattern =
     (case pattern_matches (lx_source lx) (char_offset (lx_pos lx) + 1) pattern of
        None \<Rightarrow> Inl ReadPastEnd
      | Some False \<Rightarrow> Inr (False, lx)
      | Some True \<Rightarrow>
          (case lexadvance_times (length pattern) lx of
             Inl e \<Rightarrow> Inl e
           | Inr lx' \<Rightarrow> Inr (True, lx')))"

text \<open>
  \<open>reduce_string_buffer\<close> copies the buffer as a C string, that is up to its first NUL.
\<close>

definition reduce_string_buffer :: "string \<Rightarrow> string" where
  "reduce_string_buffer buffer = takeWhile (\<lambda>c. c \<noteq> CHR 0x00) buffer"

definition lxtoken_new :: "string \<Rightarrow> lxtype \<Rightarrow> lxpos \<Rightarrow> lxtoken" where
  "lxtoken_new v t pos = \<lparr>tk_value = v, tk_type = t, tk_pos = pos\<rparr>"

text \<open>
  The end of \<open>lex\<close>: \<^verbatim>\<open>buf[len] = '\0'; buf = reduce_string_buffer(buf); return lxtoken_new(buf, type, pos);\<close>
\<close>

definition lex_finish :: "string \<Rightarrow> lxtype \<Rightarrow> lxpos \<Rightarrow> lexer \<Rightarrow> lex_error + (lxtoken \<times> lexer)" where
  "lex_finish buf t pos lx =
     (if length buf < 10000
      then Inr (lxtoken_new (reduce_string_buffer buf) t pos, lx)
      else Inl BufferOverflow)"

definition lexerror :: "lexer \<Rightarrow> string \<Rightarrow> lex_error" where
  "lexerror lx msg = LexError msg (lx_pos lx)"

text \<open>The \<^verbatim>\<open>switch (c)\<close> of \<open>lex\<close> on a single consumed character.\<close>

definition lex_single :: "char \<Rightarrow> lexer \<Rightarrow> lex_error + (lxtype \<times> string)" where
  "lex_single c lx =
     (if c = CHR 0x00 then Inr (LX_EOF, [])
      else if c = CHR 0x0A then Inr (LX_NEWLINE, [])
      else if c = CHR '' '' \<or> c = CHR 0x0D \<or> c = CHR 0x09 then Inr (LX_WHITESPACE, [])
      else if c = CHR ''{'' then Inr (LX_LEFT_BRACE, [])
      else if c = CHR ''}'' then Inr (LX_RIGHT_BRACE, [])
      else if c = CHR ''+'' \<or> c = CHR ''-'' \<or> c = CHR ''/'' \<or> c = CHR ''*'' \<or> c = CHR ''%''
            \<or> c = CHR ''<'' \<or> c = CHR ''>'' \<or> c = CHR ''&'' \<or> c = CHR ''|'' \<or> c = CHR ''^''
            \<or> c = CHR ''~''
           then Inr (LX_OPERATOR, [c])
      else if c = CHR ''('' then Inr (LX_LEFT_PAREN, [])
      else if c = CHR '')'' then Inr (LX_RIGHT_PAREN, [])
      else if c = CHR ''#'' then Inr (LX_COMMENT, [])
      else if c = CHR ''@'' then Inr (LX_CALL, [])
      else if c = CHR '','' then Inr (LX_SEPARATOR, [])
      else if c = CHR ''$'' then Inr (LX_FUNCTION, [])
      else Inl (lexerror lx ''Syntax error! Failed to identify symbol''))"

definition lex :: "lexer \<Rightarrow> lex_error + (lxtoken \<times> lexer)" where
  "lex lx =
     (let pos0 = clone_pos (lx_pos lx);
          pos = pos0\<lparr>col_pos := col_pos pos0 + 1, char_offset := char_offset pos0 + 1\<rparr>
      in case lx_lookahead lx of
           None \<Rightarrow> Inl ReadPastEnd
         | Some la \<Rightarrow>
             if isalpha la \<or> la = CHR ''_'' then
               (case lex_symbol_loop lx [] of
                  Inl e \<Rightarrow> Inl e
                | Inr (buf, lx') \<Rightarrow>
                    if length buf < 10000
                    then lex_finish buf (determine_nature buf) pos lx'
                    else Inl BufferOverflow)
             else if isdigit la then
               (case lex_integer_loop lx [] of
                  Inl e \<Rightarrow> Inl e
                | Inr (buf, lx') \<Rightarrow> lex_finish buf LX_INTEGER pos lx')
             else if la = CHR 0x22 then
               (case lexadvance lx of
                  Inl e \<Rightarrow> Inl e
                | Inr (c, lx1) \<Rightarrow>
                    (case lex_string_loop lx1 [] of
                       Inl e \<Rightarrow> Inl e
                     | Inr (buf, lx') \<Rightarrow> lex_finish buf LX_STRING pos lx'))
             else
               (case check_pattern lx ''<-'' of
                  Inl e \<Rightarrow> Inl e
                | Inr (True, lx') \<Rightarrow> lex_finish [] LX_ASSIGN pos lx'
                | Inr (False, lx') \<Rightarrow>
                    (case check_pattern lx' ''<='' of
                       Inl e \<Rightarrow> Inl e
                     | Inr (True, lx'') \<Rightarrow> lex_finish [] LX_OPERATOR pos lx''
                     | Inr (False, lx'') \<Rightarrow>
                         (case check_pattern lx'' ''>='' of
                            Inl e \<Rightarrow> Inl e
                          | Inr (True, lx3) \<Rightarrow> lex_finish [] LX_OPERATOR pos lx3
                          | Inr (False, lx3) \<Rightarrow>
                              (case lexadvance lx3 of
                                 Inl e \<Rightarrow> Inl e
                               | Inr (c, lx4) \<Rightarrow>
                                   (case lex_single c lx4 of
                                      Inl e \<Rightarrow> Inl e
                                    | Inr (t, buf) \<Rightarrow> lex_finish buf t pos lx4))))))"

subsection \<open>Every call of \<open>lex\<close> consumes input\<close>

lemma lex_symbol_loop_remaining:
  "lex_symbol_loop lx buf = Inr (b, lx') \<Longrightarrow> remaining lx' < remaining lx"
proof (induction lx buf rule: lex_symbol_loop.induct)
  case (1 lx buf)
  from "1.prems" obtain c lx1 buf1 la where
    adv: "lexadvance lx = Inr (c, lx1)" and st: "buf_store buf c = Inr buf1"
    and la: "lx_lookahead lx1 = Some la"
    and rest: "(if isalnum la \<or> isdigit la \<or> la = CHR ''_''
                then lex_symbol_loop lx1 buf1 else Inr (buf1, lx1)) = Inr (b, lx')"
    by (subst (asm) lex_symbol_loop.simps) (auto split: sum.splits option.splits)
  have lt: "remaining lx1 < remaining lx" using adv by (rule lexadvance_remaining)
  show ?case
  proof (cases "isalnum la \<or> isdigit la \<or> la = CHR ''_''")
    case True
    with rest have "lex_symbol_loop lx1 buf1 = Inr (b, lx')" by simp
    from "1.IH"[OF adv refl st la True this] lt show ?thesis by simp
  next
    case False
    with rest lt show ?thesis by simp
  qed
qed

lemma lex_integer_loop_remaining:
  "lex_integer_loop lx buf = Inr (b, lx') \<Longrightarrow> remaining lx' < remaining lx"
proof (induction lx buf rule: lex_integer_loop.induct)
  case (1 lx buf)
  from "1.prems" obtain c lx1 buf1 la where
    adv: "lexadvance lx = Inr (c, lx1)" and st: "buf_store buf c = Inr buf1"
    and la: "lx_lookahead lx1 = Some la"
    and rest: "(if isdigit la then lex_integer_loop lx1 buf1 else Inr (buf1, lx1)) = Inr (b, lx')"
    by (subst (asm) lex_integer_loop.simps) (auto split: sum.splits option.splits)
  have lt: "remaining lx1 < remaining lx" using adv by (rule lexadvance_remaining)
  show ?case
  proof (cases "isdigit la")
    case True
    with rest have "lex_integer_loop lx1 buf1 = Inr (b, lx')" by simp
    from "1.IH"[OF adv refl st la True this] lt show ?thesis by simp
  next
    case False
    with rest lt show ?thesis by simp
  qed
qed

lemma lex_string_loop_remaining:
  "lex_string_loop lx buf = Inr (b, lx') \<Longrightarrow> remaining lx' < remaining lx"
proof (induction lx buf rule: lex_string_loop.induct)
  case (1 lx buf)
  from "1.prems" obtain c lx1 where
    adv: "lexadvance lx = Inr (c, lx1)"
    and rest: "(if c \<noteq> CHR 0x22
                then (case buf_store buf c of Inl e \<Rightarrow> Inl e
                      | Inr buf' \<Rightarrow> lex_string_loop lx1 buf')
                else Inr (buf, lx1)) = Inr (b, lx')"
    by (subst (asm) lex_string_loop.simps) (auto split: sum.splits)
  have lt: "remaining lx1 < remaining lx" using adv by (rule lexadvance_remaining)
  show ?case
  proof (cases "c \<noteq> CHR 0x22")
    case True
    with rest obtain buf1 where st: "buf_store buf c = Inr buf1"
      and r: "lex_string_loop lx1 buf1 = Inr (b, lx')"
      by (auto split: sum.splits)
    from "1.IH"[OF adv refl True st r] lt show ?thesis by simp
  next
    case False
    with rest lt show ?thesis by simp
  qed
qed

lemma lexadvance_times_remaining:
  "lexadvance_times n lx = Inr lx' \<Longrightarrow> remaining lx' + n \<le> remaining lx"
  by (induction n arbitrary: lx) (fastforce split: sum.splits dest: lexadvance_remaining)+

lemma check_pattern_remaining:
  "check_pattern lx pat = Inr (b, lx') \<Longrightarrow> remaining lx' \<le> remaining lx"
  "check_pattern lx pat = Inr (True, lx') \<Longrightarrow> pat \<noteq> [] \<Longrightarrow> remaining lx' < remaining lx"
  by (auto simp: check_pattern_def split: option.splits bool.splits sum.splits if_splits
      dest!: lexadvance_times_remaining) (cases pat; simp)

lemma check_pattern_False:
  "check_pattern lx pat = Inr (False, lx') \<Longrightarrow> lx' = lx"
  by (auto simp: check_pattern_def split: option.splits bool.splits sum.splits)

lemma lex_finish_lexer:
  "lex_finish buf t pos lx1 = Inr (tok, lx') \<Longrightarrow> lx' = lx1"
  by (auto simp: lex_finish_def split: if_splits)

lemma lex_remaining:
  assumes "lex lx = Inr (tok, lx')"
  shows "remaining lx' < remaining lx"
proof (cases "lx_lookahead lx")
  case None
  then show ?thesis using assms by (simp add: lex_def)
next
  case (Some la)
  show ?thesis
  proof (cases "isalpha la \<or> la = CHR ''_''")
    case True
    with Some assms show ?thesis
      by (auto simp: lex_def Let_def split: sum.splits if_splits
          dest!: lex_finish_lexer dest: lex_symbol_loop_remaining)
  next
    case nsym: False
    show ?thesis
    proof (cases "isdigit la")
      case True
      with Some nsym assms show ?thesis
        by (auto simp: lex_def Let_def split: sum.splits
            dest!: lex_finish_lexer dest: lex_integer_loop_remaining)
    next
      case nint: False
      show ?thesis
      proof (cases "la = CHR 0x22")
        case True
        with Some nsym nint assms show ?thesis
          by (auto simp: lex_def Let_def split: sum.splits
              dest!: lex_finish_lexer lex_string_loop_remaining lexadvance_remaining)
      next
        case nstr: False
        from Some nsym nint nstr assms
        have *: "(case check_pattern lx ''<-'' of
                  Inl e \<Rightarrow> Inl e
                | Inr (True, lx') \<Rightarrow> lex_finish [] LX_ASSIGN
                     ((clone_pos (lx_pos lx))\<lparr>col_pos := col_pos (clone_pos (lx_pos lx)) + 1,
                        char_offset := char_offset (clone_pos (lx_pos lx)) + 1\<rparr>) lx'
                | Inr (False, lx') \<Rightarrow>
                    (case check_pattern lx' ''<='' of
                       Inl e \<Rightarrow> Inl e
                     | Inr (True, lx'') \<Rightarrow> lex_finish [] LX_OPERATOR
                     ((clone_pos (lx_pos lx))\<lparr>col_pos := col_pos (clone_pos (lx_pos lx)) + 1,
                        char_offset := char_offset (clone_pos (lx_pos lx)) + 1\<rparr>) lx''
                     | Inr (False, lx'') \<Rightarrow>
                         (case check_pattern lx'' ''>='' of
                            Inl e \<Rightarrow> Inl e
                          | Inr (True, lx3) \<Rightarrow> lex_finish [] LX_OPERATOR
                     ((clone_pos (lx_pos lx))\<lparr>col_pos := col_pos (clone_pos (lx_pos lx)) + 1,
                        char_offset := char_offset (clone_pos (lx_pos lx)) + 1\<rparr>) lx3
                          | Inr (False, lx3) \<Rightarrow>
                              (case lexadvance lx3 of
                                 Inl e \<Rightarrow> Inl e
                               | Inr (c, lx4) \<Rightarrow>
                                   (case lex_single c lx4 of
                                      Inl e \<Rightarrow> Inl e
                                    | Inr (t, buf) \<Rightarrow> lex_finish buf t
                     ((clone_pos (lx_pos lx))\<lparr>col_pos := col_pos (clone_pos (lx_pos lx)) + 1,
                        char_offset := char_offset (clone_pos (lx_pos lx)) + 1\<rparr>) lx4))))) = Inr (tok, lx')"
          by (simp add: lex_def Let_def)
        show ?thesis
        proof (cases "check_pattern lx ''<-''")
          case (Inl e) with * show ?thesis by simp
        next
          case (Inr r1)
          obtain b1 lx1 where r1: "r1 = (b1, lx1)" by (cases r1)
          show ?thesis
          proof (cases b1)
            case True
            with * Inr r1 show ?thesis
              by (auto dest!: lex_finish_lexer dest: check_pattern_remaining(2))
          next
            case False
            with Inr r1 have lx1: "lx1 = lx" by (auto dest: check_pattern_False)
            show ?thesis
            proof (cases "check_pattern lx ''<=''")
              case (Inl e) with * Inr r1 False lx1 show ?thesis by simp
            next
              case r2: (Inr r2)
              obtain b2 lx2 where r2': "r2 = (b2, lx2)" by (cases r2)
              show ?thesis
              proof (cases b2)
                case True
                with * Inr r1 False lx1 r2 r2' show ?thesis
                  by (auto dest!: lex_finish_lexer dest: check_pattern_remaining(2))
              next
                case b2: False
                with r2 r2' have lx2: "lx2 = lx" by (auto dest: check_pattern_False)
                show ?thesis
                proof (cases "check_pattern lx ''>=''")
                  case (Inl e) with * Inr r1 False lx1 r2 r2' b2 lx2 show ?thesis by simp
                next
                  case r3: (Inr r3)
                  obtain b3 lx3 where r3': "r3 = (b3, lx3)" by (cases r3)
                  show ?thesis
                  proof (cases b3)
                    case True
                    with * Inr r1 False lx1 r2 r2' b2 lx2 r3 r3' show ?thesis
                      by (auto dest!: lex_finish_lexer dest: check_pattern_remaining(2))
                  next
                    case b3: False
                    with r3 r3' have lx3: "lx3 = lx" by (auto dest: check_pattern_False)
                    from * Inr r1 False lx1 r2 r2' b2 lx2 r3 r3' b3 lx3 show ?thesis
                      by (auto split: sum.splits dest!: lex_finish_lexer dest: lexadvance_remaining)
                  qed
                qed
              qed
            qed
          qed
        qed
      qed
    qed
  qed
qed


section \<open>The token vector\<close>

definition vector_push :: "'a list \<Rightarrow> 'a \<Rightarrow> 'a list" where
  "vector_push v item = v @ [item]"

text \<open>
  \<open>lexify\<close> calls \<open>lex\<close> until it returns the \<open>LX_EOF\<close> token, keeps every token that is
  neither whitespace nor comment, and pushes the \<open>LX_EOF\<close> token last.
\<close>

function lexify :: "lexer \<Rightarrow> lxtoken list \<Rightarrow> lex_error + (lxtoken list \<times> lexer)" where
  "lexify lx tokens =
     (case lex lx of
        Inl e \<Rightarrow> Inl e
      | Inr (token, lx') \<Rightarrow>
          if tk_type token \<noteq> LX_EOF
          then lexify lx'
                 (if tk_type token \<noteq> LX_WHITESPACE \<and> tk_type token \<noteq> LX_COMMENT
                  then vector_push tokens token else tokens)
          else Inr (vector_push tokens token, lx'))"
  by pat_completeness auto
termination
  by (relation "measure (\<lambda>(lx, tokens). remaining lx)") (auto dest: lex_remaining)

declare lexify.simps [simp del]


section \<open>Parser data model\<close>

datatype asttype =
    AST_BLOCK | AST_ASSIGN | AST_REFERENCE | AST_INTEGER | AST_FLOAT | AST_BOOL | AST_STRING
  | AST_NULL | AST_UNARY_EXPRESSION | AST_BINARY_EXPRESSION | AST_CALL | AST_FUNCTION
  | AST_PARAMS | AST_PARAM | AST_LOOP | AST_BRANCHES | AST_RETURN | AST_INCLUDE | AST_TABLE
  | AST_KV_PAIR | AST_PUT | AST_GET
  | AST_of_lxtype lxtype

datatype astnode =
  Astnode (node_value: string) (node_type: asttype) (node_pos: lxpos) (node_children: "astnode list")

record parser =
  p_position :: nat
  p_source :: string
  p_tokens :: "lxtoken list"

datatype perror =
    ParseError string lxpos
  | InvalidAccess
  | OutOfFuel

definition pbind :: "perror + 'a \<Rightarrow> ('a \<Rightarrow> perror + 'b) \<Rightarrow> perror + 'b" where
  "pbind m f = (case m of Inl e \<Rightarrow> Inl e | Inr x \<Rightarrow> f x)"

lemma pbind_cong [fundef_cong]:
  "m = m' \<Longrightarrow> (\<And>x. m' = Inr x \<Longrightarrow> f x = f' x) \<Longrightarrow> pbind m f = pbind m' f'"
  by (auto simp: pbind_def split: sum.splits)

lemma pbind_simps [simp]:
  "pbind (Inl e) f = Inl e" "pbind (Inr x) f = f x"
  by (simp_all add: pbind_def)

definition deref :: "'a option \<Rightarrow> perror + 'a" where
  "deref x = (case x of None \<Rightarrow> Inl InvalidAccess | Some v \<Rightarrow> Inr v)"

definition vector_get :: "'a list \<Rightarrow> nat \<Rightarrow> 'a option" where
  "vector_get v i = (if i < length v then Some (v ! i) else None)"

definition vector_pop :: "'a list \<Rightarrow> ('a \<times> 'a list) option" where
  "vector_pop v = (if v = [] then None else Some (last v, butlast v))"

definition vector_top :: "'a list \<Rightarrow> 'a option" where
  "vector_top v = (if v = [] then None else Some (last v))"

definition astnode_new :: "string \<Rightarrow> asttype \<Rightarrow> lxpos \<Rightarrow> astnode" where
  "astnode_new v t pos = Astnode v t pos []"

definition add_child :: "astnode \<Rightarrow> astnode \<Rightarrow> astnode" where
  "add_child node c =
     Astnode (node_value node) (node_type node) (node_pos node) (vector_push (node_children node) c)"

definition peek :: "parser \<Rightarrow> lxtoken option" where
  "peek p = vector_get (p_tokens p) (p_position p)"

definition peek_type :: "parser \<Rightarrow> lxtype option" where
  "peek_type p = map_option tk_type (peek p)"

definition lookahead :: "parser \<Rightarrow> lxtoken option" where
  "lookahead p =
     (if p_position p + 1 < length (p_tokens p)
      then vector_get (p_tokens p) (p_position p + 1) else None)"

definition is_empty :: "parser \<Rightarrow> bool" where
  "is_empty p = (p_position p \<ge> length (p_tokens p) \<or> peek_type p = Some LX_EOF)"

definition eat :: "parser \<Rightarrow> lxtoken option \<times> parser" where
  "eat p =
     (if \<not> is_empty p
      then (vector_get (p_tokens p) (p_position p), p\<lparr>p_position := p_position p + 1\<rparr>)
      else (None, p))"

definition parsererror :: "parser \<Rightarrow> string \<Rightarrow> perror" where
  "parsererror p msg =
     (case peek p of None \<Rightarrow> InvalidAccess | Some tk \<Rightarrow> ParseError msg (tk_pos tk))"

definition consume :: "parser \<Rightarrow> lxtype \<Rightarrow> perror + (lxtoken option \<times> parser)" where
  "consume p t =
     (if \<not> is_empty p \<and> peek_type p = Some t
      then Inr (eat p)
      else Inl (parsererror p ''Unexpected token''))"

definition consume_optional :: "parser \<Rightarrow> lxtype \<Rightarrow> bool \<times> parser" where
  "consume_optional p t =
     (if \<not> is_empty p \<and> peek_type p = Some t
      then (True, snd (eat p))
      else (False, p))"

definition consume_tk :: "parser \<Rightarrow> lxtype \<Rightarrow> perror + (lxtoken \<times> parser)" where
  "consume_tk p t = pbind (consume p t) (\<lambda>(r, p'). pbind (deref r) (\<lambda>tk. Inr (tk, p')))"

definition eat_tk :: "parser \<Rightarrow> perror + (lxtoken \<times> parser)" where
  "eat_tk p = (case eat p of (r, p') \<Rightarrow> pbind (deref r) (\<lambda>tk. Inr (tk, p')))"

definition tokens_left :: "parser \<Rightarrow> nat" where
  "tokens_left p = length (p_tokens p) - p_position p"

lemma consume_optional_left:
  "consume_optional p t = (True, p') \<Longrightarrow> tokens_left p' < tokens_left p"
  by (auto simp: consume_optional_def eat_def is_empty_def tokens_left_def split: if_splits)

function strip_newlines :: "parser \<Rightarrow> parser" where
  "strip_newlines p =
     (case consume_optional p LX_NEWLINE of
        (b, p') \<Rightarrow> if b then strip_newlines p' else p')"
  by pat_completeness auto
termination
  by (relation "measure tokens_left") (auto dest: consume_optional_left[OF sym])

declare strip_newlines.simps [simp del]

text \<open>
  \<open>precedence\<close> returns an integer for the operators it knows; in its \<^verbatim>\<open>default:\<close> branch it
  calls \<open>parsererror\<close>, which ends the process. \<open>precedence_level\<close> is the integer as a function
  of the operator text, \<open>None\<close> standing for the \<^verbatim>\<open>default:\<close> branch. The switch is on
  \<^verbatim>\<open>op->value[0]\<close>, which for the empty text is the terminating NUL.
\<close>

definition precedence_level :: "string \<Rightarrow> int option" where
  "precedence_level v =
     (if v = ''<='' \<or> v = ''>='' then Some 8
      else if v = ''=='' \<or> v = ''!='' then Some 7
      else if v = ''&&'' then Some 3
      else if v = ''||'' then Some 2
      else (case v of
              [] \<Rightarrow> None
            | c # _ \<Rightarrow>
                if c = CHR ''|'' then Some 4
                else if c = CHR ''^'' then Some 5
                else if c = CHR ''&'' then Some 6
                else if c = CHR ''<'' \<or> c = CHR ''>'' then Some 8
                else if c = CHR ''+'' \<or> c = CHR ''-'' then Some 9
                else if c = CHR ''*'' \<or> c = CHR ''/'' \<or> c = CHR ''%'' then Some 10
                else None))"

definition precedence :: "parser \<Rightarrow> lxtoken \<Rightarrow> perror + int" where
  "precedence p opr =
     (case precedence_level (tk_value opr) of
        Some l \<Rightarrow> Inr l
      | None \<Rightarrow> Inl (parsererror p ''Unknown operator recieved''))"

definition apply_op ::
  "astnode list \<Rightarrow> lxtoken list \<Rightarrow> perror + (astnode \<times> astnode list \<times> lxtoken list)" where
  "apply_op operands operators =
     pbind (deref (vector_pop operators)) (\<lambda>(opr, operators').
     pbind (deref (vector_pop operands)) (\<lambda>(v1, operands1).
     pbind (deref (vector_pop operands1)) (\<lambda>(v0, operands2).
       let expression = astnode_new (tk_value opr) AST_BINARY_EXPRESSION (clone_pos (tk_pos opr));
           expression = add_child expression v0;
           expression = add_child expression v1
       in Inr (expression, operands2, operators'))))"

lemma apply_op_operators:
  "apply_op operands operators = Inr (e, operands', operators') \<Longrightarrow>
     length operators' < length operators"
  by (auto simp: apply_op_def deref_def vector_pop_def Let_def pbind_def
      split: sum.splits option.splits if_splits prod.splits)

function shunt ::
  "parser \<Rightarrow> lxtoken \<Rightarrow> astnode list \<Rightarrow> lxtoken list \<Rightarrow> perror + (astnode list \<times> lxtoken list)" where
  "shunt p opr primaries operators =
     (if length operators > 0 then
        pbind (precedence p opr) (\<lambda>l.
        pbind (deref (vector_top operators)) (\<lambda>top.
        pbind (precedence p top) (\<lambda>ltop.
          if l \<le> ltop then
            pbind (apply_op primaries operators) (\<lambda>(e, primaries', operators').
              shunt p opr (vector_push primaries' e) operators')
          else Inr (primaries, operators))))
      else Inr (primaries, operators))"
  by pat_completeness auto
termination
  by (relation "measure (\<lambda>(p, opr, primaries, operators). length operators)")
     (auto dest: apply_op_operators)

declare shunt.simps [simp del]

function drain :: "astnode list \<Rightarrow> lxtoken list \<Rightarrow> perror + astnode" where
  "drain primaries operators =
     (if length operators > 0 then
        pbind (apply_op primaries operators) (\<lambda>(e, primaries', operators').
          drain (vector_push primaries' e) operators')
      else pbind (deref (vector_pop primaries)) (\<lambda>(e, primaries'). Inr e))"
  by pat_completeness auto
termination
  by (relation "measure (\<lambda>(primaries, operators). length operators)")
     (auto dest: apply_op_operators)

declare drain.simps [simp del]


lemma consume_left:
  "consume p t = Inr (r, p') \<Longrightarrow> tokens_left p' < tokens_left p"
  by (auto simp: consume_def eat_def is_empty_def tokens_left_def split: if_splits)

lemma consume_tk_left:
  "consume_tk p t = Inr (tk, p') \<Longrightarrow> tokens_left p' < tokens_left p"
  by (auto simp: consume_tk_def pbind_def deref_def split: sum.splits option.splits
      dest: consume_left)

definition set_value :: "astnode \<Rightarrow> string \<Rightarrow> astnode" where
  "set_value node v = Astnode v (node_type node) (node_pos node) (node_children node)"

definition set_type :: "astnode \<Rightarrow> asttype \<Rightarrow> astnode" where
  "set_type node t = Astnode (node_value node) t (node_pos node) (node_children node)"

text \<open>
  The parameter list of a function definition:
  \<^verbatim>\<open>do { param = consume(p, LX_SYMBOL); push(params, astnode_new(param->value, AST_PARAM, pos)); } while (consume_optional(p, LX_SEPARATOR));\<close>
\<close>

function parse_params :: "astnode \<Rightarrow> parser \<Rightarrow> perror + (astnode \<times> parser)" where
  "parse_params params p =
     pbind (consume_tk p LX_SYMBOL) (\<lambda>(param, p1).
       let params' = add_child params
                       (astnode_new (tk_value param) AST_PARAM (clone_pos (tk_pos param)))
       in case consume_optional p1 LX_SEPARATOR of
            (b, p2) \<Rightarrow> if b then parse_params params' p2 else Inr (params', p2))"
  by pat_completeness auto
termination
  by (relation "measure (\<lambda>(params, p). tokens_left p)")
     (auto dest!: consume_optional_left[OF sym] consume_tk_left)

declare parse_params.simps [simp del]

text \<open>The literal cases of \<open>parse_primary\<close>: \<^verbatim>\<open>node->type = t; node->value = eat(p)->value;\<close>\<close>

definition parse_leaf :: "asttype \<Rightarrow> lxpos \<Rightarrow> parser \<Rightarrow> perror + (astnode \<times> parser)" where
  "parse_leaf t pos p = pbind (eat_tk p) (\<lambda>(tk, p1). Inr (Astnode (tk_value tk) t pos [], p1))"


type_synonym pres = "perror + (astnode \<times> parser)"

subsection \<open>The bodies of the parsing routines\<close>

text \<open>
  The parsing routines call each other recursively. Each body is written down once, with the
  routines it calls as parameters that carry the names of those routines; the recursion is
  tied afterwards.
\<close>

definition parse_block_body ::
  "(lxtype \<Rightarrow> astnode \<Rightarrow> parser \<Rightarrow> pres) \<Rightarrow> parser \<Rightarrow> lxtype \<Rightarrow> pres" where
  "parse_block_body parse_block_loop p terminal =
     pbind (deref (peek p)) (\<lambda>tk.
       let block = astnode_new ''block'' (AST_of_lxtype LX_BLOCK) (clone_pos (tk_pos tk))
       in parse_block_loop terminal block (strip_newlines p))"

definition parse_block_loop_body ::
  "(parser \<Rightarrow> pres) \<Rightarrow> (lxtype \<Rightarrow> astnode \<Rightarrow> parser \<Rightarrow> pres) \<Rightarrow>
   lxtype \<Rightarrow> astnode \<Rightarrow> parser \<Rightarrow> pres" where
  "parse_block_loop_body parse_statement parse_block_loop terminal block p =
     (if \<not> is_empty p \<and> peek_type p \<noteq> Some terminal then
        pbind (parse_statement p) (\<lambda>(st, p1).
          parse_block_loop terminal (add_child block st) (strip_newlines p1))
      else Inr (block, p))"

definition parse_statement_body ::
  "(parser \<Rightarrow> pres) \<Rightarrow> (parser \<Rightarrow> pres) \<Rightarrow> (parser \<Rightarrow> pres) \<Rightarrow> (parser \<Rightarrow> pres) \<Rightarrow>
   (parser \<Rightarrow> pres) \<Rightarrow> (parser \<Rightarrow> pres) \<Rightarrow> parser \<Rightarrow> pres" where
  "parse_statement_body parse_table_put parse_expression parse_function_call parse_loop
       parse_branching parse_primary p =
     pbind (deref (peek p)) (\<lambda>tk.
       let st = astnode_new [] AST_ASSIGN (clone_pos (tk_pos tk));
           t = tk_type tk
       in if t = LX_SYMBOL then
            pbind (deref (lookahead p)) (\<lambda>la.
              if tk_type la = LX_LEFT_SQUARE \<or> tk_type la = LX_DOT then parse_table_put p
              else
                pbind (eat_tk p) (\<lambda>(name, p1).
                  let st = set_value (set_type st AST_ASSIGN) (tk_value name) in
                  pbind (consume p1 LX_ASSIGN) (\<lambda>(r, p2).
                  pbind (parse_expression p2) (\<lambda>(e, p3).
                    Inr (add_child st e, p3)))))
          else if t = LX_CALL then parse_function_call p
          else if t = LX_LOOP then parse_loop p
          else if t = LX_IF then parse_branching p
          else if t = LX_INCLUDE then
            (case eat p of
               (r, p1) \<Rightarrow>
                 let st = set_value (set_type st AST_INCLUDE) ''include'' in
                 pbind (parse_primary p1) (\<lambda>(fp, p2).
                   if node_type fp \<noteq> AST_STRING
                   then Inl (parsererror p2 ''Expected string in include statement!'')
                   else Inr (add_child st fp, p2)))
          else if t = LX_RETURN then
            (case eat p of
               (r, p1) \<Rightarrow>
                 let st = set_value (set_type st AST_RETURN) ''ret'' in
                 pbind (parse_expression p1) (\<lambda>(e, p2). Inr (add_child st e, p2)))
          else Inl (parsererror p ''Invalid statement!''))"

definition parse_expression_body ::
  "(parser \<Rightarrow> pres) \<Rightarrow> (astnode list \<Rightarrow> lxtoken list \<Rightarrow> parser \<Rightarrow> pres) \<Rightarrow> parser \<Rightarrow> pres" where
  "parse_expression_body parse_primary parse_expression_loop p =
     pbind (parse_primary p) (\<lambda>(e, p1).
       parse_expression_loop (vector_push [] e) [] p1)"

definition parse_expression_loop_body ::
  "(parser \<Rightarrow> pres) \<Rightarrow> (astnode list \<Rightarrow> lxtoken list \<Rightarrow> parser \<Rightarrow> pres) \<Rightarrow>
   astnode list \<Rightarrow> lxtoken list \<Rightarrow> parser \<Rightarrow> pres" where
  "parse_expression_loop_body parse_primary parse_expression_loop primaries operators p =
     (if \<not> is_empty p \<and> peek_type p = Some LX_OPERATOR then
        pbind (eat_tk p) (\<lambda>(opr, p1).
        pbind (shunt p1 opr primaries operators) (\<lambda>(primaries1, operators1).
          let operators2 = vector_push operators1 opr in
          pbind (parse_primary p1) (\<lambda>(e, p2).
            parse_expression_loop (vector_push primaries1 e) operators2 p2)))
      else pbind (drain primaries operators) (\<lambda>e. Inr (e, p)))"

definition parse_primary_body ::
  "(parser \<Rightarrow> pres) \<Rightarrow> (parser \<Rightarrow> pres) \<Rightarrow> (parser \<Rightarrow> pres) \<Rightarrow> (parser \<Rightarrow> pres) \<Rightarrow>
   (parser \<Rightarrow> pres) \<Rightarrow> (parser \<Rightarrow> pres) \<Rightarrow> parser \<Rightarrow> pres" where
  "parse_primary_body parse_table_instance parse_table_get parse_function_definition
       parse_function_call parse_expression parse_primary p =
     (if is_empty p then Inl (parsererror p ''Program has ended prematurely!'')
      else
        pbind (deref (peek p)) (\<lambda>tk.
          let pos = clone_pos (tk_pos tk);
              t = tk_type tk
          in if t = LX_INTEGER then parse_leaf AST_INTEGER pos p
             else if t = LX_FLOAT then parse_leaf AST_FLOAT pos p
             else if t = LX_BOOL then parse_leaf AST_BOOL pos p
             else if t = LX_STRING then parse_leaf AST_STRING pos p
             else if t = LX_NULL then parse_leaf AST_NULL pos p
             else if t = LX_LEFT_BRACE then parse_table_instance p
             else if t = LX_SYMBOL then
               pbind (deref (lookahead p)) (\<lambda>la.
                 if tk_type la = LX_LEFT_SQUARE \<or> tk_type la = LX_DOT then parse_table_get p
                 else parse_leaf AST_REFERENCE pos p)
             else if t = LX_FUNCTION then parse_function_definition p
             else if t = LX_CALL then parse_function_call p
             else if t = LX_LEFT_PAREN then
               pbind (consume p LX_LEFT_PAREN) (\<lambda>(r, p1).
               pbind (parse_expression p1) (\<lambda>(node, p2).
               pbind (consume p2 LX_RIGHT_PAREN) (\<lambda>(r, p3). Inr (node, p3))))
             else if t = LX_OPERATOR then
               (if tk_value tk \<noteq> ''-'' \<and> tk_value tk \<noteq> ''+''
                   \<and> tk_value tk \<noteq> ''!'' \<and> tk_value tk \<noteq> ''~''
                then Inl (parsererror p ''Invalid unary operator'')
                else
                  pbind (eat_tk p) (\<lambda>(opr, p1).
                  pbind (parse_primary p1) (\<lambda>(e, p2).
                    Inr (add_child (Astnode (tk_value opr) AST_UNARY_EXPRESSION pos []) e, p2))))
             else Inl (parsererror p ''Unexpected token found'')))"

definition parse_function_call_body ::
  "(parser \<Rightarrow> pres) \<Rightarrow> (astnode \<Rightarrow> parser \<Rightarrow> pres) \<Rightarrow> parser \<Rightarrow> pres" where
  "parse_function_call_body parse_expression parse_call_args p =
     pbind (consume p LX_CALL) (\<lambda>(r, p1).
     pbind (deref (peek p1)) (\<lambda>tk.
       let fcall = Astnode (tk_value tk) AST_CALL (clone_pos (tk_pos tk)) [] in
       pbind (parse_expression p1) (\<lambda>(callee, p2).
       let fcall = add_child fcall callee in
       pbind (consume p2 LX_LEFT_PAREN) (\<lambda>(r, p3).
       pbind (if \<not> is_empty p3 \<and> peek_type p3 \<noteq> Some LX_RIGHT_PAREN
              then parse_call_args fcall p3 else Inr (fcall, p3)) (\<lambda>(fcall, p4).
       pbind (consume p4 LX_RIGHT_PAREN) (\<lambda>(r, p5). Inr (fcall, p5)))))))"

definition parse_call_args_body ::
  "(parser \<Rightarrow> pres) \<Rightarrow> (astnode \<Rightarrow> parser \<Rightarrow> pres) \<Rightarrow> astnode \<Rightarrow> parser \<Rightarrow> pres" where
  "parse_call_args_body parse_expression parse_call_args fcall p =
     pbind (parse_expression p) (\<lambda>(e, p1).
       let fcall = add_child fcall e in
       case consume_optional p1 LX_SEPARATOR of
         (b, p2) \<Rightarrow> if b then parse_call_args fcall p2 else Inr (fcall, p2))"

definition parse_function_definition_body ::
  "(parser \<Rightarrow> lxtype \<Rightarrow> pres) \<Rightarrow> parser \<Rightarrow> pres" where
  "parse_function_definition_body parse_block p =
     pbind (consume_tk p LX_FUNCTION) (\<lambda>(ftk, p1).
       let func = astnode_new ''code'' AST_FUNCTION (clone_pos (tk_pos ftk)) in
       pbind (consume_tk p1 LX_LEFT_PAREN) (\<lambda>(ptk, p2).
       let params = astnode_new ''args'' AST_PARAMS (clone_pos (tk_pos ptk)) in
       pbind (deref (peek p2)) (\<lambda>tk.
       pbind (if tk_type tk \<noteq> LX_RIGHT_PAREN
              then parse_params params p2 else Inr (params, p2)) (\<lambda>(params, p3).
       let func = add_child func params in
       pbind (consume p3 LX_RIGHT_PAREN) (\<lambda>(r, p4).
       pbind (consume (strip_newlines p4) LX_LEFT_BRACE) (\<lambda>(r, p5).
       pbind (parse_block p5 LX_RIGHT_BRACE) (\<lambda>(body, p6).
       let func = add_child func body in
       pbind (consume p6 LX_RIGHT_BRACE) (\<lambda>(r, p7). Inr (func, p7)))))))))"

definition parse_loop_body ::
  "(parser \<Rightarrow> pres) \<Rightarrow> (parser \<Rightarrow> lxtype \<Rightarrow> pres) \<Rightarrow> parser \<Rightarrow> pres" where
  "parse_loop_body parse_expression parse_block p =
     pbind (consume_tk p LX_LOOP) (\<lambda>(ltk, p1).
       let loop = astnode_new ''loop'' AST_LOOP (clone_pos (tk_pos ltk)) in
       pbind (parse_expression p1) (\<lambda>(cond, p2).
       let loop = add_child loop cond in
       pbind (consume (strip_newlines p2) LX_LEFT_BRACE) (\<lambda>(r, p3).
       pbind (parse_block p3 LX_RIGHT_BRACE) (\<lambda>(body, p4).
       let loop = add_child loop body in
       pbind (consume p4 LX_RIGHT_BRACE) (\<lambda>(r, p5). Inr (loop, p5))))))"

text \<open>
  In \<open>parse_branching\<close> the C code keeps a pointer \<open>branchx\<close> to the last node of the chain
  and pushes every new branch into the children of \<open>branchx\<close>, which is itself already a child
  of its predecessor. Here \<open>outer\<close> lists the nodes from \<open>branch0\<close> down to the parent of
  \<open>branchx\<close>, each without the child that links it to the next node; \<open>foldr add_child\<close>
  supplies these links when the loop is left.
\<close>

definition parse_branching_body ::
  "(parser \<Rightarrow> pres) \<Rightarrow> (parser \<Rightarrow> lxtype \<Rightarrow> pres) \<Rightarrow>
   (astnode list \<Rightarrow> astnode \<Rightarrow> parser \<Rightarrow> pres) \<Rightarrow> parser \<Rightarrow> pres" where
  "parse_branching_body parse_expression parse_block parse_else_loop p =
     pbind (consume_tk p LX_IF) (\<lambda>(itk, p1).
       let branch0 = astnode_new ''conditional'' AST_BRANCHES (clone_pos (tk_pos itk)) in
       pbind (parse_expression p1) (\<lambda>(cond, p2).
       let branch0 = add_child branch0 cond in
       pbind (consume (strip_newlines p2) LX_LEFT_BRACE) (\<lambda>(r, p3).
       pbind (parse_block p3 LX_RIGHT_BRACE) (\<lambda>(body, p4).
       let branch0 = add_child branch0 body in
       pbind (consume p4 LX_RIGHT_BRACE) (\<lambda>(r, p5).
         parse_else_loop [] branch0 (strip_newlines p5))))))"

definition parse_else_loop_body ::
  "(parser \<Rightarrow> pres) \<Rightarrow> (parser \<Rightarrow> lxtype \<Rightarrow> pres) \<Rightarrow>
   (astnode list \<Rightarrow> astnode \<Rightarrow> parser \<Rightarrow> pres) \<Rightarrow>
   astnode list \<Rightarrow> astnode \<Rightarrow> parser \<Rightarrow> pres" where
  "parse_else_loop_body parse_expression parse_block parse_else_loop outer branchx p =
     pbind (deref (peek p)) (\<lambda>tk.
       if tk_type tk = LX_ELSE then
         pbind (eat_tk p) (\<lambda>(etk, p1).
         let branch = astnode_new [] AST_BRANCHES (clone_pos (tk_pos etk)) in
         case consume_optional p1 LX_IF of
           (b, p2) \<Rightarrow>
             pbind (if b then
                      pbind (parse_expression p2) (\<lambda>(cond, p3).
                        Inr (add_child (set_value branch ''conditional'') cond, p3))
                    else Inr (set_value branch ''alt'', p2)) (\<lambda>(branch, p3).
             pbind (consume (strip_newlines p3) LX_LEFT_BRACE) (\<lambda>(r, p4).
             pbind (parse_block p4 LX_RIGHT_BRACE) (\<lambda>(body, p5).
             let branch = add_child branch body in
             pbind (consume p5 LX_RIGHT_BRACE) (\<lambda>(r, p6).
               let p7 = strip_newlines p6 in
               if node_value branch = ''alt''
               then Inr (foldr add_child (vector_push outer branchx) branch, p7)
               else parse_else_loop (vector_push outer branchx) branch p7)))))
       else Inr (foldr add_child outer branchx, p))"

definition parse_table_instance_body ::
  "(astnode \<Rightarrow> parser \<Rightarrow> pres) \<Rightarrow> parser \<Rightarrow> pres" where
  "parse_table_instance_body parse_table_entries p =
     pbind (consume_tk p LX_LEFT_BRACE) (\<lambda>(btk, p1).
       let table = astnode_new ''table'' AST_TABLE (clone_pos (tk_pos btk));
           p2 = strip_newlines p1
       in pbind (deref (peek p2)) (\<lambda>tk.
          pbind (if tk_type tk \<noteq> LX_RIGHT_BRACE
                 then parse_table_entries table p2 else Inr (table, p2)) (\<lambda>(table, p3).
          pbind (consume p3 LX_RIGHT_BRACE) (\<lambda>(r, p4). Inr (table, p4)))))"

definition parse_table_entries_body ::
  "(parser \<Rightarrow> pres) \<Rightarrow> (astnode \<Rightarrow> parser \<Rightarrow> pres) \<Rightarrow> astnode \<Rightarrow> parser \<Rightarrow> pres" where
  "parse_table_entries_body parse_expression parse_table_entries table p =
     (let p1 = strip_newlines p in
      pbind (deref (peek p1)) (\<lambda>tk.
        let element = astnode_new ''pair'' AST_KV_PAIR (clone_pos (tk_pos tk)) in
        pbind (parse_expression p1) (\<lambda>(k, p2).
        let element = add_child element k in
        pbind (consume p2 LX_COLON) (\<lambda>(r, p3).
        pbind (parse_expression p3) (\<lambda>(v, p4).
        let element = add_child element v;
            p5 = strip_newlines p4;
            table = add_child table element
        in case consume_optional p5 LX_SEPARATOR of
             (b, p6) \<Rightarrow> if b then parse_table_entries table p6 else Inr (table, p6))))))"

definition parse_table_put_body :: "(parser \<Rightarrow> pres) \<Rightarrow> parser \<Rightarrow> pres" where
  "parse_table_put_body parse_expression p =
     pbind (consume_tk p LX_SYMBOL) (\<lambda>(var, p1).
       let put = astnode_new (tk_value var) AST_PUT (clone_pos (tk_pos var)) in
       pbind (case consume_optional p1 LX_LEFT_SQUARE of
                (b, p2) \<Rightarrow>
                  if b then
                    pbind (parse_expression p2) (\<lambda>(k, p3).
                    pbind (consume p3 LX_RIGHT_SQUARE) (\<lambda>(r, p4). Inr (add_child put k, p4)))
                  else
                    (case consume_optional p2 LX_DOT of
                       (b', p3) \<Rightarrow>
                         if b' then
                           pbind (consume_tk p3 LX_SYMBOL) (\<lambda>(tk, p4).
                             Inr (add_child put
                                    (astnode_new (tk_value tk) AST_STRING (clone_pos (tk_pos tk))),
                                  p4))
                         else Inr (put, p3))) (\<lambda>(put, p5).
       pbind (consume p5 LX_ASSIGN) (\<lambda>(r, p6).
       pbind (parse_expression p6) (\<lambda>(e, p7). Inr (add_child put e, p7)))))"

definition parse_table_get_body :: "(parser \<Rightarrow> pres) \<Rightarrow> parser \<Rightarrow> pres" where
  "parse_table_get_body parse_expression p =
     pbind (consume_tk p LX_SYMBOL) (\<lambda>(var, p1).
       let get = astnode_new (tk_value var) AST_GET (clone_pos (tk_pos var)) in
       case consume_optional p1 LX_LEFT_SQUARE of
         (b, p2) \<Rightarrow>
           if b then
             pbind (parse_expression p2) (\<lambda>(k, p3).
             pbind (consume p3 LX_RIGHT_SQUARE) (\<lambda>(r, p4). Inr (add_child get k, p4)))
           else
             (case consume_optional p2 LX_DOT of
                (b', p3) \<Rightarrow>
                  if b' then
                    pbind (consume_tk p3 LX_SYMBOL) (\<lambda>(tk, p4).
                      Inr (add_child get
                             (astnode_new (tk_value tk) AST_STRING (clone_pos (tk_pos tk))),
                           p4))
                  else Inr (get, p3)))"

subsection \<open>Tying the recursion\<close>

text \<open>
  The routines are indexed by a recursion budget: a call made by a routine of budget
  \<open>Suc n\<close> goes to the routine of budget \<open>n\<close>, and budget \<open>0\<close> answers \<open>OutOfFuel\<close>.
\<close>

record parsers =
  the_parse_block :: "parser \<Rightarrow> lxtype \<Rightarrow> pres"
  the_parse_block_loop :: "lxtype \<Rightarrow> astnode \<Rightarrow> parser \<Rightarrow> pres"
  the_parse_statement :: "parser \<Rightarrow> pres"
  the_parse_expression :: "parser \<Rightarrow> pres"
  the_parse_expression_loop :: "astnode list \<Rightarrow> lxtoken list \<Rightarrow> parser \<Rightarrow> pres"
  the_parse_primary :: "parser \<Rightarrow> pres"
  the_parse_function_call :: "parser \<Rightarrow> pres"
  the_parse_call_args :: "astnode \<Rightarrow> parser \<Rightarrow> pres"
  the_parse_function_definition :: "parser \<Rightarrow> pres"
  the_parse_loop :: "parser \<Rightarrow> pres"
  the_parse_branching :: "parser \<Rightarrow> pres"
  the_parse_else_loop :: "astnode list \<Rightarrow> astnode \<Rightarrow> parser \<Rightarrow> pres"
  the_parse_table_instance :: "parser \<Rightarrow> pres"
  the_parse_table_entries :: "astnode \<Rightarrow> parser \<Rightarrow> pres"
  the_parse_table_put :: "parser \<Rightarrow> pres"
  the_parse_table_get :: "parser \<Rightarrow> pres"

definition parsers_step :: "parsers \<Rightarrow> parsers" where
  "parsers_step F =
     \<lparr>the_parse_block = parse_block_body (the_parse_block_loop F),
      the_parse_block_loop =
        parse_block_loop_body (the_parse_statement F)
          (the_parse_block_loop F),
      the_parse_statement =
        parse_statement_body (the_parse_table_put F)
          (the_parse_expression F) (the_parse_function_call F)
          (the_parse_loop F) (the_parse_branching F)
          (the_parse_primary F),
      the_parse_expression =
        parse_expression_body (the_parse_primary F)
          (the_parse_expression_loop F),
      the_parse_expression_loop =
        parse_expression_loop_body (the_parse_primary F)
          (the_parse_expression_loop F),
      the_parse_primary =
        parse_primary_body (the_parse_table_instance F)
          (the_parse_table_get F) (the_parse_function_definition F)
          (the_parse_function_call F) (the_parse_expression F)
          (the_parse_primary F),
      the_parse_function_call =
        parse_function_call_body (the_parse_expression F)
          (the_parse_call_args F),
      the_parse_call_args =
        parse_call_args_body (the_parse_expression F)
          (the_parse_call_args F),
      the_parse_function_definition =
        parse_function_definition_body (the_parse_block F),
      the_parse_loop =
        parse_loop_body (the_parse_expression F) (the_parse_block F),
      the_parse_branching =
        parse_branching_body (the_parse_expression F)
          (the_parse_block F) (the_parse_else_loop F),
      the_parse_else_loop =
        parse_else_loop_body (the_parse_expression F)
          (the_parse_block F) (the_parse_else_loop F),
      the_parse_table_instance =
        parse_table_instance_body (the_parse_table_entries F),
      the_parse_table_entries =
        parse_table_entries_body (the_parse_expression F)
          (the_parse_table_entries F),
      the_parse_table_put = parse_table_put_body (the_parse_expression F),
      the_parse_table_get = parse_table_get_body (the_parse_expression F)\<rparr>"

primrec parsers_at :: "nat \<Rightarrow> parsers" where
  "parsers_at 0 =
     \<lparr>the_parse_block = (\<lambda>p terminal. Inl OutOfFuel),
      the_parse_block_loop = (\<lambda>terminal block p. Inl OutOfFuel),
      the_parse_statement = (\<lambda>p. Inl OutOfFuel),
      the_parse_expression = (\<lambda>p. Inl OutOfFuel),
      the_parse_expression_loop = (\<lambda>primaries operators p. Inl OutOfFuel),
      the_parse_primary = (\<lambda>p. Inl OutOfFuel),
      the_parse_function_call = (\<lambda>p. Inl OutOfFuel),
      the_parse_call_args = (\<lambda>fcall p. Inl OutOfFuel),
      the_parse_function_definition = (\<lambda>p. Inl OutOfFuel),
      the_parse_loop = (\<lambda>p. Inl OutOfFuel),
      the_parse_branching = (\<lambda>p. Inl OutOfFuel),
      the_parse_else_loop = (\<lambda>outer branchx p. Inl OutOfFuel),
      the_parse_table_instance = (\<lambda>p. Inl OutOfFuel),
      the_parse_table_entries = (\<lambda>table p. Inl OutOfFuel),
      the_parse_table_put = (\<lambda>p. Inl OutOfFuel),
      the_parse_table_get = (\<lambda>p. Inl OutOfFuel)\<rparr>"
| "parsers_at (Suc n) = parsers_step (parsers_at n)"

definition parse_block :: "nat \<Rightarrow> parser \<Rightarrow> lxtype \<Rightarrow> pres" where
  "parse_block n = the_parse_block (parsers_at n)"

definition parse_block_loop :: "nat \<Rightarrow> lxtype \<Rightarrow> astnode \<Rightarrow> parser \<Rightarrow> pres" where
  "parse_block_loop n = the_parse_block_loop (parsers_at n)"

definition parse_statement :: "nat \<Rightarrow> parser \<Rightarrow> pres" where
  "parse_statement n = the_parse_statement (parsers_at n)"

definition parse_expression :: "nat \<Rightarrow> parser \<Rightarrow> pres" where
  "parse_expression n = the_parse_expression (parsers_at n)"

definition parse_expression_loop ::
  "nat \<Rightarrow> astnode list \<Rightarrow> lxtoken list \<Rightarrow> parser \<Rightarrow> pres" where
  "parse_expression_loop n = the_parse_expression_loop (parsers_at n)"

definition parse_primary :: "nat \<Rightarrow> parser \<Rightarrow> pres" where
  "parse_primary n = the_parse_primary (parsers_at n)"

definition parse_function_call :: "nat \<Rightarrow> parser \<Rightarrow> pres" where
  "parse_function_call n = the_parse_function_call (parsers_at n)"

definition parse_call_args :: "nat \<Rightarrow> astnode \<Rightarrow> parser \<Rightarrow> pres" where
  "parse_call_args n = the_parse_call_args (parsers_at n)"

definition parse_function_definition :: "nat \<Rightarrow> parser \<Rightarrow> pres" where
  "parse_function_definition n = the_parse_function_definition (parsers_at n)"

definition parse_loop :: "nat \<Rightarrow> parser \<Rightarrow> pres" where
  "parse_loop n = the_parse_loop (parsers_at n)"

definition parse_branching :: "nat \<Rightarrow> parser \<Rightarrow> pres" where
  "parse_branching n = the_parse_branching (parsers_at n)"

definition parse_else_loop :: "nat \<Rightarrow> astnode list \<Rightarrow> astnode \<Rightarrow> parser \<Rightarrow> pres" where
  "parse_else_loop n = the_parse_else_loop (parsers_at n)"

definition parse_table_instance :: "nat \<Rightarrow> parser \<Rightarrow> pres" where
  "parse_table_instance n = the_parse_table_instance (parsers_at n)"

definition parse_table_entries :: "nat \<Rightarrow> astnode \<Rightarrow> parser \<Rightarrow> pres" where
  "parse_table_entries n = the_parse_table_entries (parsers_at n)"

definition parse_table_put :: "nat \<Rightarrow> parser \<Rightarrow> pres" where
  "parse_table_put n = the_parse_table_put (parsers_at n)"

definition parse_table_get :: "nat \<Rightarrow> parser \<Rightarrow> pres" where
  "parse_table_get n = the_parse_table_get (parsers_at n)"

lemmas parse_defs =
  parse_block_def parse_block_loop_def parse_statement_def parse_expression_def
  parse_expression_loop_def parse_primary_def parse_function_call_def parse_call_args_def
  parse_function_definition_def parse_loop_def parse_branching_def parse_else_loop_def
  parse_table_instance_def parse_table_entries_def parse_table_put_def parse_table_get_def

text \<open>The recursion equations of the routines.\<close>

lemma parse_0:
  "parse_block 0 p terminal = Inl OutOfFuel"
  "parse_block_loop 0 terminal block p = Inl OutOfFuel"
  "parse_statement 0 p = Inl OutOfFuel"
  "parse_expression 0 p = Inl OutOfFuel"
  "parse_expression_loop 0 primaries operators p = Inl OutOfFuel"
  "parse_primary 0 p = Inl OutOfFuel"
  "parse_function_call 0 p = Inl OutOfFuel"
  "parse_call_args 0 fcall p = Inl OutOfFuel"
  "parse_function_definition 0 p = Inl OutOfFuel"
  "parse_loop 0 p = Inl OutOfFuel"
  "parse_branching 0 p = Inl OutOfFuel"
  "parse_else_loop 0 outer branchx p = Inl OutOfFuel"
  "parse_table_instance 0 p = Inl OutOfFuel"
  "parse_table_entries 0 table p = Inl OutOfFuel"
  "parse_table_put 0 p = Inl OutOfFuel"
  "parse_table_get 0 p = Inl OutOfFuel"
  by (simp_all add: parse_defs)

lemma parse_Suc:
  "parse_block (Suc n) p terminal = parse_block_body (parse_block_loop n) p terminal"
  "parse_block_loop (Suc n) terminal block p =
     parse_block_loop_body (parse_statement n) (parse_block_loop n) terminal block p"
  "parse_statement (Suc n) p =
     parse_statement_body (parse_table_put n) (parse_expression n) (parse_function_call n)
       (parse_loop n) (parse_branching n) (parse_primary n) p"
  "parse_expression (Suc n) p =
     parse_expression_body (parse_primary n) (parse_expression_loop n) p"
  "parse_expression_loop (Suc n) primaries operators p =
     parse_expression_loop_body (parse_primary n) (parse_expression_loop n) primaries operators p"
  "parse_primary (Suc n) p =
     parse_primary_body (parse_table_instance n) (parse_table_get n)
       (parse_function_definition n) (parse_function_call n) (parse_expression n)
       (parse_primary n) p"
  "parse_function_call (Suc n) p =
     parse_function_call_body (parse_expression n) (parse_call_args n) p"
  "parse_call_args (Suc n) fcall p =
     parse_call_args_body (parse_expression n) (parse_call_args n) fcall p"
  "parse_function_definition (Suc n) p = parse_function_definition_body (parse_block n) p"
  "parse_loop (Suc n) p = parse_loop_body (parse_expression n) (parse_block n) p"
  "parse_branching (Suc n) p =
     parse_branching_body (parse_expression n) (parse_block n) (parse_else_loop n) p"
  "parse_else_loop (Suc n) outer branchx p =
     parse_else_loop_body (parse_expression n) (parse_block n) (parse_else_loop n)
       outer branchx p"
  "parse_table_instance (Suc n) p = parse_table_instance_body (parse_table_entries n) p"
  "parse_table_entries (Suc n) table p =
     parse_table_entries_body (parse_expression n) (parse_table_entries n) table p"
  "parse_table_put (Suc n) p = parse_table_put_body (parse_expression n) p"
  "parse_table_get (Suc n) p = parse_table_get_body (parse_expression n) p"
  by (simp_all add: parse_defs parsers_step_def)

lemma pbind_weak_cong: "m = m' \<Longrightarrow> pbind m f = pbind m' f"
  by simp

definition parse :: "nat \<Rightarrow> parser \<Rightarrow> pres" where
  "parse n p = parse_block n p LX_EOF"


section \<open>A larger recursion budget never changes a result\<close>

text \<open>
  \<open>fuel_le r r'\<close>: the result \<open>r'\<close>, obtained with a larger budget, agrees with \<open>r\<close> unless
  \<open>r\<close> ran out of budget.
\<close>

definition fuel_le :: "perror + 'a \<Rightarrow> perror + 'a \<Rightarrow> bool" where
  "fuel_le r r' = (r = Inl OutOfFuel \<or> r' = r)"

lemma fuel_le_refl: "fuel_le r r"
  by (simp add: fuel_le_def)

lemma fuel_le_pbind:
  "fuel_le m m' \<Longrightarrow> (\<And>x. fuel_le (f x) (f' x)) \<Longrightarrow> fuel_le (pbind m f) (pbind m' f')"
  by (cases m) (auto simp: fuel_le_def)

lemma fuel_le_if:
  "(c \<Longrightarrow> fuel_le a a') \<Longrightarrow> (\<not> c \<Longrightarrow> fuel_le b b') \<Longrightarrow>
   fuel_le (if c then a else b) (if c then a' else b')"
  by simp

lemma fuel_le_case_prod:
  "(\<And>a b. fuel_le (f a b) (f' a b)) \<Longrightarrow> fuel_le (case_prod f x) (case_prod f' x)"
  by (cases x) simp

lemma fuel_le_Let:
  "(\<And>x. fuel_le (f x) (f' x)) \<Longrightarrow> fuel_le (Let e f) (Let e f')"
  by (simp add: Let_def)

lemmas fuel_le_intros = fuel_le_refl fuel_le_pbind fuel_le_if fuel_le_case_prod fuel_le_Let

lemma parse_block_body_mono:
  assumes "\<And>t b p. fuel_le (f t b p) (f' t b p)"
  shows "fuel_le (parse_block_body f p t) (parse_block_body f' p t)"
  unfolding parse_block_body_def by (intro fuel_le_intros assms)

lemma parse_block_loop_body_mono:
  assumes "\<And>p. fuel_le (f p) (f' p)" "\<And>t b p. fuel_le (g t b p) (g' t b p)"
  shows "fuel_le (parse_block_loop_body f g t b p) (parse_block_loop_body f' g' t b p)"
  unfolding parse_block_loop_body_def by (intro fuel_le_intros assms)

lemma parse_statement_body_mono:
  assumes "\<And>p. fuel_le (f1 p) (f1' p)" "\<And>p. fuel_le (f2 p) (f2' p)"
    "\<And>p. fuel_le (f3 p) (f3' p)" "\<And>p. fuel_le (f4 p) (f4' p)"
    "\<And>p. fuel_le (f5 p) (f5' p)" "\<And>p. fuel_le (f6 p) (f6' p)"
  shows "fuel_le (parse_statement_body f1 f2 f3 f4 f5 f6 p)
           (parse_statement_body f1' f2' f3' f4' f5' f6' p)"
  unfolding parse_statement_body_def by (intro fuel_le_intros assms)

lemma parse_expression_body_mono:
  assumes "\<And>p. fuel_le (f p) (f' p)" "\<And>a b p. fuel_le (g a b p) (g' a b p)"
  shows "fuel_le (parse_expression_body f g p) (parse_expression_body f' g' p)"
  unfolding parse_expression_body_def by (intro fuel_le_intros assms)

lemma parse_expression_loop_body_mono:
  assumes "\<And>p. fuel_le (f p) (f' p)" "\<And>a b p. fuel_le (g a b p) (g' a b p)"
  shows "fuel_le (parse_expression_loop_body f g a b p) (parse_expression_loop_body f' g' a b p)"
  unfolding parse_expression_loop_body_def by (intro fuel_le_intros assms)

lemma parse_primary_body_mono:
  assumes "\<And>p. fuel_le (f1 p) (f1' p)" "\<And>p. fuel_le (f2 p) (f2' p)"
    "\<And>p. fuel_le (f3 p) (f3' p)" "\<And>p. fuel_le (f4 p) (f4' p)"
    "\<And>p. fuel_le (f5 p) (f5' p)" "\<And>p. fuel_le (f6 p) (f6' p)"
  shows "fuel_le (parse_primary_body f1 f2 f3 f4 f5 f6 p)
           (parse_primary_body f1' f2' f3' f4' f5' f6' p)"
  unfolding parse_primary_body_def by (intro fuel_le_intros assms)

lemma parse_function_call_body_mono:
  assumes "\<And>p. fuel_le (f p) (f' p)" "\<And>a p. fuel_le (g a p) (g' a p)"
  shows "fuel_le (parse_function_call_body f g p) (parse_function_call_body f' g' p)"
  unfolding parse_function_call_body_def by (intro fuel_le_intros assms)

lemma parse_call_args_body_mono:
  assumes "\<And>p. fuel_le (f p) (f' p)" "\<And>a p. fuel_le (g a p) (g' a p)"
  shows "fuel_le (parse_call_args_body f g a p) (parse_call_args_body f' g' a p)"
  unfolding parse_call_args_body_def by (intro fuel_le_intros assms)

lemma parse_function_definition_body_mono:
  assumes "\<And>p t. fuel_le (f p t) (f' p t)"
  shows "fuel_le (parse_function_definition_body f p) (parse_function_definition_body f' p)"
  unfolding parse_function_definition_body_def by (intro fuel_le_intros assms)

lemma parse_loop_body_mono:
  assumes "\<And>p. fuel_le (f p) (f' p)" "\<And>p t. fuel_le (g p t) (g' p t)"
  shows "fuel_le (parse_loop_body f g p) (parse_loop_body f' g' p)"
  unfolding parse_loop_body_def by (intro fuel_le_intros assms)

lemma parse_branching_body_mono:
  assumes "\<And>p. fuel_le (f p) (f' p)" "\<And>p t. fuel_le (g p t) (g' p t)"
    "\<And>a b p. fuel_le (h a b p) (h' a b p)"
  shows "fuel_le (parse_branching_body f g h p) (parse_branching_body f' g' h' p)"
  unfolding parse_branching_body_def by (intro fuel_le_intros assms)

lemma parse_else_loop_body_mono:
  assumes "\<And>p. fuel_le (f p) (f' p)" "\<And>p t. fuel_le (g p t) (g' p t)"
    "\<And>a b p. fuel_le (h a b p) (h' a b p)"
  shows "fuel_le (parse_else_loop_body f g h a b p) (parse_else_loop_body f' g' h' a b p)"
  unfolding parse_else_loop_body_def by (intro fuel_le_intros assms)

lemma parse_table_instance_body_mono:
  assumes "\<And>a p. fuel_le (f a p) (f' a p)"
  shows "fuel_le (parse_table_instance_body f p) (parse_table_instance_body f' p)"
  unfolding parse_table_instance_body_def by (intro fuel_le_intros assms)

lemma parse_table_entries_body_mono:
  assumes "\<And>p. fuel_le (f p) (f' p)" "\<And>a p. fuel_le (g a p) (g' a p)"
  shows "fuel_le (parse_table_entries_body f g a p) (parse_table_entries_body f' g' a p)"
  unfolding parse_table_entries_body_def by (intro fuel_le_intros assms)

lemma parse_table_put_body_mono:
  assumes "\<And>p. fuel_le (f p) (f' p)"
  shows "fuel_le (parse_table_put_body f p) (parse_table_put_body f' p)"
  unfolding parse_table_put_body_def by (intro fuel_le_intros assms)

lemma parse_table_get_body_mono:
  assumes "\<And>p. fuel_le (f p) (f' p)"
  shows "fuel_le (parse_table_get_body f p) (parse_table_get_body f' p)"
  unfolding parse_table_get_body_def by (intro fuel_le_intros assms)


lemmas parse_body_mono = parse_block_body_mono parse_block_loop_body_mono
  parse_statement_body_mono parse_expression_body_mono parse_expression_loop_body_mono
  parse_primary_body_mono parse_function_call_body_mono parse_call_args_body_mono
  parse_function_definition_body_mono parse_loop_body_mono parse_branching_body_mono
  parse_else_loop_body_mono parse_table_instance_body_mono parse_table_entries_body_mono
  parse_table_put_body_mono parse_table_get_body_mono

definition parsers_le :: "nat \<Rightarrow> nat \<Rightarrow> bool" where
  "parsers_le n m =
     ((\<forall>p t. fuel_le (parse_block n p t) (parse_block m p t))
    \<and> (\<forall>t b p. fuel_le (parse_block_loop n t b p) (parse_block_loop m t b p))
    \<and> (\<forall>p. fuel_le (parse_statement n p) (parse_statement m p))
    \<and> (\<forall>p. fuel_le (parse_expression n p) (parse_expression m p))
    \<and> (\<forall>a b p. fuel_le (parse_expression_loop n a b p) (parse_expression_loop m a b p))
    \<and> (\<forall>p. fuel_le (parse_primary n p) (parse_primary m p))
    \<and> (\<forall>p. fuel_le (parse_function_call n p) (parse_function_call m p))
    \<and> (\<forall>a p. fuel_le (parse_call_args n a p) (parse_call_args m a p))
    \<and> (\<forall>p. fuel_le (parse_function_definition n p) (parse_function_definition m p))
    \<and> (\<forall>p. fuel_le (parse_loop n p) (parse_loop m p))
    \<and> (\<forall>p. fuel_le (parse_branching n p) (parse_branching m p))
    \<and> (\<forall>a b p. fuel_le (parse_else_loop n a b p) (parse_else_loop m a b p))
    \<and> (\<forall>p. fuel_le (parse_table_instance n p) (parse_table_instance m p))
    \<and> (\<forall>a p. fuel_le (parse_table_entries n a p) (parse_table_entries m a p))
    \<and> (\<forall>p. fuel_le (parse_table_put n p) (parse_table_put m p))
    \<and> (\<forall>p. fuel_le (parse_table_get n p) (parse_table_get m p)))"

lemma fuel_le_eqI: "a = a' \<Longrightarrow> b = b' \<Longrightarrow> fuel_le a' b' \<Longrightarrow> fuel_le a b"
  by simp

lemmas parse_step =
  fuel_le_eqI[OF parse_Suc(1) parse_Suc(1)] fuel_le_eqI[OF parse_Suc(2) parse_Suc(2)]
  fuel_le_eqI[OF parse_Suc(3) parse_Suc(3)] fuel_le_eqI[OF parse_Suc(4) parse_Suc(4)]
  fuel_le_eqI[OF parse_Suc(5) parse_Suc(5)] fuel_le_eqI[OF parse_Suc(6) parse_Suc(6)]
  fuel_le_eqI[OF parse_Suc(7) parse_Suc(7)] fuel_le_eqI[OF parse_Suc(8) parse_Suc(8)]
  fuel_le_eqI[OF parse_Suc(9) parse_Suc(9)] fuel_le_eqI[OF parse_Suc(10) parse_Suc(10)]
  fuel_le_eqI[OF parse_Suc(11) parse_Suc(11)] fuel_le_eqI[OF parse_Suc(12) parse_Suc(12)]
  fuel_le_eqI[OF parse_Suc(13) parse_Suc(13)] fuel_le_eqI[OF parse_Suc(14) parse_Suc(14)]
  fuel_le_eqI[OF parse_Suc(15) parse_Suc(15)] fuel_le_eqI[OF parse_Suc(16) parse_Suc(16)]

lemma parsers_le_Suc: "parsers_le n (Suc n)"
proof (induction n)
  case 0
  show ?case by (simp add: parsers_le_def parse_0 fuel_le_def)
next
  case (Suc n)
  then have IH:
    "\<And>p t. fuel_le (parse_block n p t) (parse_block (Suc n) p t)"
    "\<And>t b p. fuel_le (parse_block_loop n t b p) (parse_block_loop (Suc n) t b p)"
    "\<And>p. fuel_le (parse_statement n p) (parse_statement (Suc n) p)"
    "\<And>p. fuel_le (parse_expression n p) (parse_expression (Suc n) p)"
    "\<And>a b p. fuel_le (parse_expression_loop n a b p) (parse_expression_loop (Suc n) a b p)"
    "\<And>p. fuel_le (parse_primary n p) (parse_primary (Suc n) p)"
    "\<And>p. fuel_le (parse_function_call n p) (parse_function_call (Suc n) p)"
    "\<And>a p. fuel_le (parse_call_args n a p) (parse_call_args (Suc n) a p)"
    "\<And>p. fuel_le (parse_function_definition n p) (parse_function_definition (Suc n) p)"
    "\<And>p. fuel_le (parse_loop n p) (parse_loop (Suc n) p)"
    "\<And>p. fuel_le (parse_branching n p) (parse_branching (Suc n) p)"
    "\<And>a b p. fuel_le (parse_else_loop n a b p) (parse_else_loop (Suc n) a b p)"
    "\<And>p. fuel_le (parse_table_instance n p) (parse_table_instance (Suc n) p)"
    "\<And>a p. fuel_le (parse_table_entries n a p) (parse_table_entries (Suc n) a p)"
    "\<And>p. fuel_le (parse_table_put n p) (parse_table_put (Suc n) p)"
    "\<And>p. fuel_le (parse_table_get n p) (parse_table_get (Suc n) p)"
    unfolding parsers_le_def by simp_all
  show ?case
    unfolding parsers_le_def
    by (intro conjI allI parse_step parse_body_mono IH)
qed

lemma parsers_le_refl: "parsers_le n n"
  by (simp add: parsers_le_def fuel_le_refl)

lemma fuel_le_trans: "fuel_le a b \<Longrightarrow> fuel_le b c \<Longrightarrow> fuel_le a c"
  by (auto simp: fuel_le_def)

lemma parsers_le_trans: "parsers_le a b \<Longrightarrow> parsers_le b c \<Longrightarrow> parsers_le a c"
  unfolding parsers_le_def by (meson fuel_le_trans)

lemma parsers_le_mono: "n \<le> m \<Longrightarrow> parsers_le n m"
proof (induction m)
  case 0
  then show ?case by (simp add: parsers_le_refl)
next
  case (Suc m)
  show ?case
  proof (cases "n = Suc m")
    case True
    then show ?thesis by (simp add: parsers_le_refl)
  next
    case False
    with Suc.prems have "n \<le> m" by simp
    from parsers_le_trans[OF Suc.IH[OF this] parsers_le_Suc] show ?thesis .
  qed
qed

lemma parse_primary_mono:
  "parse_primary n p = Inr r \<Longrightarrow> n \<le> m \<Longrightarrow> parse_primary m p = Inr r"
proof -
  assume r: "parse_primary n p = Inr r" and "n \<le> m"
  then have "parsers_le n m" by (simp add: parsers_le_mono)
  then have "fuel_le (parse_primary n p) (parse_primary m p)" unfolding parsers_le_def by simp
  with r show ?thesis by (simp add: fuel_le_def)
qed

lemma parse_expression_mono:
  "parse_expression n p = Inr r \<Longrightarrow> n \<le> m \<Longrightarrow> parse_expression m p = Inr r"
proof -
  assume r: "parse_expression n p = Inr r" and "n \<le> m"
  then have "parsers_le n m" by (simp add: parsers_le_mono)
  then have "fuel_le (parse_expression n p) (parse_expression m p)" unfolding parsers_le_def by simp
  with r show ?thesis by (simp add: fuel_le_def)
qed

lemma parse_block_mono:
  "parse_block n p t = Inr r \<Longrightarrow> n \<le> m \<Longrightarrow> parse_block m p t = Inr r"
proof -
  assume r: "parse_block n p t = Inr r" and "n \<le> m"
  then have "parsers_le n m" by (simp add: parsers_le_mono)
  then have "fuel_le (parse_block n p t) (parse_block m p t)" unfolding parsers_le_def by simp
  with r show ?thesis by (simp add: fuel_le_def)
qed


section \<open>Evaluation rules for concrete inputs\<close>

lemmas lex_eval = lexify.simps lex_def lex_symbol_loop.simps lex_integer_loop.simps
  lex_string_loop.simps lexadvance_def src_at_def isalpha_def isdigit_def isalnum_def Let_def
  lexer_new_def clone_pos_def buf_store_def check_pattern_def lex_finish_def lex_single_def
  lexerror_def lxtoken_new_def reduce_string_buffer_def determine_nature_def vector_push_def

section \<open>Identifiers and reserved words\<close>

text \<open>The characters that continue an identifier.\<close>

definition ident_char :: "char \<Rightarrow> bool" where
  "ident_char c = (isalnum c \<or> isdigit c \<or> c = CHR ''_'')"

lemma ident_char_not_NUL: "ident_char c \<Longrightarrow> c \<noteq> CHR 0x00"
  by (auto simp: ident_char_def isalnum_def isalpha_def isdigit_def Let_def)

lemma lexadvance_char: "lexadvance lx = Inr (c, lx') \<Longrightarrow> lx_lookahead lx = Some c"
  by (auto simp: lexadvance_def Let_def split: option.splits if_splits)

lemma lex_symbol_loop_chars:
  "lex_symbol_loop lx buf = Inr (b, lx') \<Longrightarrow> lx_lookahead lx = Some la \<Longrightarrow> ident_char la \<Longrightarrow>
   \<forall>c \<in> set buf. ident_char c \<Longrightarrow> (\<forall>c \<in> set b. ident_char c) \<and> b \<noteq> []"
proof (induction lx buf arbitrary: la rule: lex_symbol_loop.induct)
  case (1 lx buf)
  from "1.prems"(1) obtain c lx1 buf1 la1 where
    adv: "lexadvance lx = Inr (c, lx1)" and st: "buf_store buf c = Inr buf1"
    and la: "lx_lookahead lx1 = Some la1"
    and rest: "(if isalnum la1 \<or> isdigit la1 \<or> la1 = CHR ''_''
                then lex_symbol_loop lx1 buf1 else Inr (buf1, lx1)) = Inr (b, lx')"
    by (subst (asm) lex_symbol_loop.simps) (auto split: sum.splits option.splits)
  from adv "1.prems"(2) have c: "c = la" by (auto dest: lexadvance_char)
  from st have buf1: "buf1 = buf @ [c]" by (auto simp: buf_store_def split: if_splits)
  with c "1.prems" have all1: "\<forall>c \<in> set buf1. ident_char c" by auto
  show ?case
  proof (cases "isalnum la1 \<or> isdigit la1 \<or> la1 = CHR ''_''")
    case True
    with rest have r: "lex_symbol_loop lx1 buf1 = Inr (b, lx')" by simp
    from True have "ident_char la1" by (simp add: ident_char_def)
    from "1.IH"[OF adv refl st la True r la this all1] show ?thesis .
  next
    case False
    with rest all1 buf1 show ?thesis by auto
  qed
qed

lemma lex_symbol_value:
  assumes la: "lx_lookahead lx = Some la" and start: "isalpha la \<or> la = CHR ''_''"
    and lx: "lex lx = Inr (tok, lx')"
  shows "tk_type tok = determine_nature (tk_value tok) \<and> tk_value tok \<noteq> []
         \<and> (\<forall>c \<in> set (tk_value tok). ident_char c)"
proof -
  from la start lx obtain buf where
    loop: "lex_symbol_loop lx [] = Inr (buf, lx')"
    and tok: "tok = lxtoken_new (reduce_string_buffer buf) (determine_nature buf)
                 ((clone_pos (lx_pos lx))\<lparr>col_pos := col_pos (clone_pos (lx_pos lx)) + 1,
                        char_offset := char_offset (clone_pos (lx_pos lx)) + 1\<rparr>)"
  proof -
    from start have cond: "(isalpha la \<or> la = CHR ''_'') = True" by simp
    from lx show ?thesis
      unfolding lex_def Let_def la option.case cond if_True
      by (cases "lex_symbol_loop lx []") (auto simp: lex_finish_def split: if_splits intro: that)
  qed
  from start have "ident_char la" by (auto simp: ident_char_def isalnum_def)
  from lex_symbol_loop_chars[OF loop la this] have all: "\<forall>c \<in> set buf. ident_char c" and ne: "buf \<noteq> []"
    by auto
  from all have "reduce_string_buffer buf = buf"
    unfolding reduce_string_buffer_def by (auto dest: ident_char_not_NUL)
  with tok all ne show ?thesis by (simp add: lxtoken_new_def)
qed


text \<open>
  C4 (as the code has it): an identifier token, one that starts with a letter or \<open>_\<close>, is
  given its kind by \<open>determine_nature\<close> from its text alone: \<open>true\<close> and \<open>false\<close> become
  \<open>LX_BOOL\<close>, \<open>null\<close> becomes \<open>LX_NULL\<close>, \<open>return\<close> becomes \<open>LX_RETURN\<close>, and every other
  identifier, \<open>if\<close>, \<open>else\<close>, \<open>loop\<close> and \<open>include\<close> among them, becomes \<open>LX_SYMBOL\<close>.
\<close>

theorem lex_identifier_kind:
  assumes "lx_lookahead lx = Some la" and "isalpha la \<or> la = CHR ''_''"
    and "lex lx = Inr (tok, lx')"
  shows "tk_type tok =
           (if tk_value tok = ''false'' \<or> tk_value tok = ''true'' then LX_BOOL
            else if tk_value tok = ''null'' then LX_NULL
            else if tk_value tok = ''return'' then LX_RETURN
            else LX_SYMBOL)"
  using lex_symbol_value[OF assms] by (simp add: determine_nature_def)

theorem lex_identifier_kind_witness:
  "lx_lookahead (lexer_new ''loop'') = Some CHR ''l'' \<and> (isalpha CHR ''l'' \<or> CHR ''l'' = CHR ''_'')
   \<and> lex (lexer_new ''loop'') =
       Inr (\<lparr>tk_value = ''loop'', tk_type = LX_SYMBOL,
              tk_pos = \<lparr>col_pos = 0, line_pos = 0, char_offset = 0, line_offset = 0\<rparr>\<rparr>,
            \<lparr>lx_pos = \<lparr>col_pos = 3, line_pos = 0, char_offset = 3, line_offset = 0\<rparr>,
              lx_source = ''loop'', lx_current = CHR ''p'', lx_lookahead = Some CHR 0x00\<rparr>)
   \<and> LX_SYMBOL = (if ''loop'' = ''false'' \<or> ''loop'' = ''true'' then LX_BOOL
            else if ''loop'' = ''null'' then LX_NULL
            else if ''loop'' = ''return'' then LX_RETURN
            else LX_SYMBOL)"
proof -
  have h1: "lx_lookahead (lexer_new ''loop'') = Some CHR ''l''"
    by (simp add: lexer_new_def src_at_def)
  have h2: "isalpha CHR ''l'' \<or> CHR ''l'' = CHR ''_''"
    by (simp add: isalpha_def)
  have h3: "lex (lexer_new ''loop'') =
       Inr (\<lparr>tk_value = ''loop'', tk_type = LX_SYMBOL,
              tk_pos = \<lparr>col_pos = 0, line_pos = 0, char_offset = 0, line_offset = 0\<rparr>\<rparr>,
            \<lparr>lx_pos = \<lparr>col_pos = 3, line_pos = 0, char_offset = 3, line_offset = 0\<rparr>,
              lx_source = ''loop'', lx_current = CHR ''p'', lx_lookahead = Some CHR 0x00\<rparr>)"
    by (simp add: lex_eval)
  from lex_identifier_kind[OF h1 h2 h3] h1 h2 h3 show ?thesis by simp
qed

text \<open>
  The reserved words \<open>if\<close>, \<open>else\<close>, \<open>loop\<close> and \<open>include\<close> are not mapped to kinds of
  their own: \<open>determine_nature\<close> answers \<open>LX_SYMBOL\<close> for each of them.
\<close>

theorem determine_nature_if_is_symbol:
  "determine_nature ''if'' = LX_SYMBOL \<and> determine_nature ''else'' = LX_SYMBOL
   \<and> determine_nature ''loop'' = LX_SYMBOL \<and> determine_nature ''include'' = LX_SYMBOL
   \<and> lex (lexer_new ''if'') =
       Inr (\<lparr>tk_value = ''if'', tk_type = LX_SYMBOL,
              tk_pos = \<lparr>col_pos = 0, line_pos = 0, char_offset = 0, line_offset = 0\<rparr>\<rparr>,
            \<lparr>lx_pos = \<lparr>col_pos = 1, line_pos = 0, char_offset = 1, line_offset = 0\<rparr>,
              lx_source = ''if'', lx_current = CHR ''f'', lx_lookahead = Some CHR 0x00\<rparr>)"
  by (simp add: lex_eval)

section \<open>The token vector handed to the parser\<close>

lemma lexify_tokens:
  "lexify lx tokens = Inr (toks, lx') \<Longrightarrow>
   \<exists>pre eof. toks = tokens @ pre @ [eof] \<and> tk_type eof = LX_EOF \<and>
     (\<forall>t \<in> set pre. tk_type t \<noteq> LX_EOF \<and> tk_type t \<noteq> LX_WHITESPACE \<and> tk_type t \<noteq> LX_COMMENT)"
proof (induction lx tokens rule: lexify.induct)
  case (1 lx tokens)
  let ?keep = "\<lambda>t. tk_type t \<noteq> LX_EOF \<and> tk_type t \<noteq> LX_WHITESPACE \<and> tk_type t \<noteq> LX_COMMENT"
  from "1.prems" have
    unf: "(case lex lx of
        Inl e \<Rightarrow> Inl e
      | Inr (token, lx') \<Rightarrow>
          if tk_type token \<noteq> LX_EOF
          then lexify lx'
                 (if tk_type token \<noteq> LX_WHITESPACE \<and> tk_type token \<noteq> LX_COMMENT
                  then vector_push tokens token else tokens)
          else Inr (vector_push tokens token, lx')) = Inr (toks, lx')"
    by (subst (asm) lexify.simps)
  then obtain r where lr: "lex lx = Inr r" by (cases "lex lx") simp_all
  obtain token lx1 where r: "r = (token, lx1)" by (cases r)
  from lr r have lx: "lex lx = Inr (token, lx1)" by simp
  show ?case
  proof (cases "tk_type token \<noteq> LX_EOF")
    case False
    with unf lx have "toks = tokens @ [] @ [token]" by (simp add: vector_push_def)
    moreover from False have "tk_type token = LX_EOF" by simp
    moreover have "\<forall>t \<in> set []. ?keep t" by simp
    ultimately show ?thesis by (intro exI conjI)
  next
    case True
    let ?tokens' = "if tk_type token \<noteq> LX_WHITESPACE \<and> tk_type token \<noteq> LX_COMMENT
                  then vector_push tokens token else tokens"
    from True unf lx have rr: "lexify lx1 ?tokens' = Inr (toks, lx')" by simp
    from "1.IH"[OF lx refl True rr] obtain pre eof where
      p1: "toks = ?tokens' @ pre @ [eof]" and p2: "tk_type eof = LX_EOF"
      and p3: "\<forall>t \<in> set pre. ?keep t"
      by blast
    show ?thesis
    proof (cases "tk_type token \<noteq> LX_WHITESPACE \<and> tk_type token \<noteq> LX_COMMENT")
      case keep: True
      with p1 have "toks = tokens @ (token # pre) @ [eof]" by (simp add: vector_push_def)
      moreover from p3 keep True have "\<forall>t \<in> set (token # pre). ?keep t" by simp
      ultimately show ?thesis using p2 by (intro exI conjI)
    next
      case False
      with p1 have "toks = tokens @ pre @ [eof]" by simp
      then show ?thesis using p2 p3 by (intro exI conjI)
    qed
  qed
qed


text \<open>
  C5: whenever \<open>lexify\<close> accepts a source text, the token vector it fills contains exactly
  one \<open>LX_EOF\<close> token, that token is the last element, and the vector contains no
  \<open>LX_WHITESPACE\<close> and no \<open>LX_COMMENT\<close> token.
\<close>

theorem lexify_one_eof_last:
  assumes "lexify lx [] = Inr (toks, lx')"
  shows "toks \<noteq> [] \<and> tk_type (last toks) = LX_EOF
         \<and> length (filter (\<lambda>t. tk_type t = LX_EOF) toks) = 1
         \<and> (\<forall>t \<in> set toks. tk_type t \<noteq> LX_WHITESPACE \<and> tk_type t \<noteq> LX_COMMENT)"
proof -
  from lexify_tokens[OF assms] obtain pre eof where
    p1: "toks = pre @ [eof]" and p2: "tk_type eof = LX_EOF" and
    p3: "\<forall>t \<in> set pre. tk_type t \<noteq> LX_EOF \<and> tk_type t \<noteq> LX_WHITESPACE \<and> tk_type t \<noteq> LX_COMMENT"
    by auto
  from p3 have "filter (\<lambda>t. tk_type t = LX_EOF) pre = []" by (simp add: filter_empty_conv)
  with p1 p2 p3 show ?thesis by simp
qed

theorem lexify_one_eof_last_witness:
  "\<exists>toks lx'. lexify (lexer_new ''x <- 1 # c'') [] = Inr (toks, lx')
     \<and> map tk_type toks = [LX_SYMBOL, LX_ASSIGN, LX_INTEGER, LX_SYMBOL, LX_EOF]
     \<and> toks \<noteq> [] \<and> tk_type (last toks) = LX_EOF
     \<and> length (filter (\<lambda>t. tk_type t = LX_EOF) toks) = 1
     \<and> (\<forall>t \<in> set toks. tk_type t \<noteq> LX_WHITESPACE \<and> tk_type t \<noteq> LX_COMMENT)"
proof -
  obtain toks lx' where
    h: "lexify (lexer_new ''x <- 1 # c'') [] = Inr (toks, lx')"
    and t: "map tk_type toks = [LX_SYMBOL, LX_ASSIGN, LX_INTEGER, LX_SYMBOL, LX_EOF]"
    by (simp add: lex_eval)
  from lexify_one_eof_last[OF h] h t show ?thesis
    by (intro exI[of _ toks] exI[of _ lx']) simp
qed


section \<open>The node built by \<open>apply_op\<close>\<close>

text \<open>
  \<open>binary_node opr l r\<close> is the node \<open>apply_op\<close> builds: the operator's text and position,
  kind \<open>AST_BINARY_EXPRESSION\<close>, and the two operands as children, \<open>l\<close> first.
\<close>

definition binary_node :: "lxtoken \<Rightarrow> astnode \<Rightarrow> astnode \<Rightarrow> astnode" where
  "binary_node opr l r =
     Astnode (tk_value opr) AST_BINARY_EXPRESSION (clone_pos (tk_pos opr)) [l, r]"

section \<open>Example inputs\<close>

definition mk_token :: "string \<Rightarrow> lxtype \<Rightarrow> int \<Rightarrow> lxtoken" where
  "mk_token v t c = \<lparr>tk_value = v, tk_type = t,
      tk_pos = \<lparr>col_pos = c, line_pos = 0, char_offset = c, line_offset = 0\<rparr>\<rparr>"

definition mk_parser :: "nat \<Rightarrow> lxtoken list \<Rightarrow> parser" where
  "mk_parser i ts = \<lparr>p_position = i, p_source = [], p_tokens = ts\<rparr>"

definition leaf_node :: "asttype \<Rightarrow> lxtoken \<Rightarrow> astnode" where
  "leaf_node t tk = Astnode (tk_value tk) t (clone_pos (tk_pos tk)) []"

lemmas parse_numeral = parse_Suc[of "pred_numeral k", folded numeral_eq_Suc] for k

lemmas parse_bodies = parse_block_body_def parse_block_loop_body_def parse_statement_body_def
  parse_expression_body_def parse_expression_loop_body_def parse_primary_body_def
  parse_function_call_body_def parse_call_args_body_def parse_function_definition_body_def
  parse_loop_body_def parse_branching_body_def parse_else_loop_body_def
  parse_table_instance_body_def parse_table_entries_body_def parse_table_put_body_def
  parse_table_get_body_def

lemmas parse_eval = parse_numeral parse_Suc parse_0 parse_bodies
  deref_def peek_def peek_type_def lookahead_def is_empty_def eat_def eat_tk_def parsererror_def
  consume_def consume_optional_def consume_tk_def vector_get_def vector_pop_def vector_top_def
  vector_push_def astnode_new_def add_child_def set_value_def set_type_def clone_pos_def
  strip_newlines.simps shunt.simps drain.simps parse_params.simps parse_leaf_def precedence_def
  precedence_level_def apply_op_def Let_def mk_token_def mk_parser_def leaf_node_def
  binary_node_def

definition tokens_1_plus_2_times_3 :: "lxtoken list" where
  "tokens_1_plus_2_times_3 =
     [mk_token ''1'' LX_INTEGER 0, mk_token ''+'' LX_OPERATOR 2, mk_token ''2'' LX_INTEGER 4,
      mk_token ''*'' LX_OPERATOR 6, mk_token ''3'' LX_INTEGER 8, mk_token [] LX_EOF 9]"

definition tokens_1_minus_2_plus_3 :: "lxtoken list" where
  "tokens_1_minus_2_plus_3 =
     [mk_token ''1'' LX_INTEGER 0, mk_token ''-'' LX_OPERATOR 2, mk_token ''2'' LX_INTEGER 4,
      mk_token ''+'' LX_OPERATOR 6, mk_token ''3'' LX_INTEGER 8, mk_token [] LX_EOF 9]"


section \<open>Operator precedence and grouping\<close>

lemma apply_op_two:
  "apply_op (operands @ [v0, v1]) (operators @ [opr]) =
     Inr (binary_node opr v0 v1, operands, operators)"
  by (simp add: apply_op_def vector_pop_def deref_def binary_node_def astnode_new_def
      add_child_def vector_push_def Let_def butlast_append)

lemma precedence_indep:
  "precedence p opr = Inr l \<Longrightarrow> precedence p' opr = Inr l"
  by (auto simp: precedence_def split: option.splits)

lemma shunt_one:
  assumes "precedence p op2 = Inr l2" "precedence p op1 = Inr l1"
  shows "shunt p op2 [a, b] [op1] =
           (if l2 \<le> l1 then Inr ([binary_node op1 a b], []) else Inr ([a, b], [op1]))"
proof -
  have ap: "apply_op [a, b] [op1] = Inr (binary_node op1 a b, [], [])"
    using apply_op_two[of "[]" a b "[]" op1] by simp
  show ?thesis
    by (subst shunt.simps, simp add: assms vector_top_def deref_def ap vector_push_def)
       (simp add: shunt.simps)
qed

lemma drain_one:
  "drain [x, y] [opr] = Inr (binary_node opr x y)"
proof -
  have ap: "apply_op [x, y] [opr] = Inr (binary_node opr x y, [], [])"
    using apply_op_two[of "[]" x y "[]" opr] by simp
  show ?thesis
    by (subst drain.simps, simp add: ap vector_push_def)
       (simp add: drain.simps vector_pop_def deref_def)
qed

lemma drain_two:
  "drain [x, y, z] [o1, o2] = Inr (binary_node o1 x (binary_node o2 y z))"
proof -
  have ap: "apply_op [x, y, z] [o1, o2] = Inr (binary_node o2 y z, [x], [o1])"
    using apply_op_two[of "[x]" y z "[o1]" o2] by simp
  show ?thesis
    by (subst drain.simps, simp add: ap vector_push_def drain_one)
qed

lemma astnode_not_own_child: "Astnode v t pos [a, b] \<noteq> a"
proof
  assume "Astnode v t pos [a, b] = a"
  then have "size (Astnode v t pos [a, b]) = size a" by simp
  then show False by simp
qed

lemma eat_tk_operator:
  "\<not> is_empty p \<Longrightarrow> peek p = Some opr \<Longrightarrow> eat_tk p = Inr (opr, snd (eat p))"
  by (simp add: eat_tk_def eat_def peek_def deref_def)


text \<open>
  C1: let an expression consist of a primary \<open>a\<close>, an operator token \<open>opr_a\<close>, a primary
  \<open>b\<close>, an operator token \<open>opr_b\<close> and a primary \<open>c\<close>, followed by something that is not
  an operator, and let both operators have a precedence. Then \<open>parse_expression\<close> returns, for
  every sufficient recursion budget, the left-grouped tree \<open>(a opr_a b) opr_b c\<close> if
  \<open>precedence opr_a \<ge> precedence opr_b\<close> and the right-grouped tree \<open>a opr_a (b opr_b c)\<close>
  otherwise; so the tree is left-grouped exactly when \<open>precedence opr_a \<ge> precedence opr_b\<close>,
  and operators of equal precedence associate to the left. \<open>apply_op\<close> makes the operand that
  was pushed earlier the first child.
\<close>

theorem parse_expression_grouping:
  assumes a: "parse_primary n p = Inr (a, p_a)"
    and o1: "\<not> is_empty p_a" "peek p_a = Some opr_a" "tk_type opr_a = LX_OPERATOR"
    and b: "parse_primary n (snd (eat p_a)) = Inr (b, p_b)"
    and o2: "\<not> is_empty p_b" "peek p_b = Some opr_b" "tk_type opr_b = LX_OPERATOR"
    and c: "parse_primary n (snd (eat p_b)) = Inr (c, p_c)"
    and fin: "is_empty p_c \<or> peek_type p_c \<noteq> Some LX_OPERATOR"
    and LA: "precedence p opr_a = Inr lev_a" and LB: "precedence p opr_b = Inr lev_b"
    and m: "n + 3 \<le> m"
  shows "parse_expression m p =
           Inr (if lev_b \<le> lev_a then binary_node opr_b (binary_node opr_a a b) c
                else binary_node opr_a a (binary_node opr_b b c), p_c)
         \<and> (parse_expression m p = Inr (binary_node opr_b (binary_node opr_a a b) c, p_c)
              \<longleftrightarrow> lev_b \<le> lev_a)
         \<and> apply_op (operands @ [v0, v1]) (operators @ [opr]) =
             Inr (binary_node opr v0 v1, operands, operators)"
proof -
  from a have "n \<noteq> 0" by (cases n) (simp_all add: parse_0)
  with m have "m = Suc (Suc (Suc (Suc (m - 4))))" and "n \<le> Suc (m - 4)" by arith+
  then obtain i where m': "m = Suc (Suc (Suc (Suc i)))" and i: "n \<le> Suc i" by blast
  let ?p2 = "snd (eat p_a)" and ?p4 = "snd (eat p_b)"
  have A: "parse_primary (Suc (Suc (Suc i))) p = Inr (a, p_a)"
    using parse_primary_mono[OF a] i by simp
  have B: "parse_primary (Suc (Suc i)) ?p2 = Inr (b, p_b)"
    using parse_primary_mono[OF b] i by simp
  have C: "parse_primary (Suc i) ?p4 = Inr (c, p_c)"
    using parse_primary_mono[OF c] i by simp
  have t1: "peek_type p_a = Some LX_OPERATOR" using o1 by (simp add: peek_type_def)
  have t3: "peek_type p_b = Some LX_OPERATOR" using o2 by (simp add: peek_type_def)
  have s1: "shunt ?p2 opr_a [a] [] = Inr ([a], [])" by (simp add: shunt.simps)
  have s2: "shunt ?p4 opr_b [a, b] [opr_a] =
           (if lev_b \<le> lev_a then Inr ([binary_node opr_a a b], []) else Inr ([a, b], [opr_a]))"
    by (rule shunt_one) (rule precedence_indep[OF LB], rule precedence_indep[OF LA])
  have fin': "(\<not> is_empty p_c \<and> peek_type p_c = Some LX_OPERATOR) = False"
    using fin by auto
  have res: "parse_expression m p =
           Inr (if lev_b \<le> lev_a then binary_node opr_b (binary_node opr_a a b) c
                else binary_node opr_a a (binary_node opr_b b c), p_c)"
    unfolding m'
    by (simp add: parse_Suc(4,5) parse_expression_body_def parse_expression_loop_body_def
        A B C o1 o2 t1 t3 eat_tk_operator s1 s2 vector_push_def fin' drain_one drain_two
        Let_def cong: pbind_weak_cong)
  have ne: "binary_node opr_b (binary_node opr_a a b) c \<noteq> binary_node opr_a a (binary_node opr_b b c)"
    by (simp add: binary_node_def astnode_not_own_child)
  from res ne apply_op_two show ?thesis by auto
qed



theorem parse_expression_grouping_witness:
  "parse_expression 4 (mk_parser 0 tokens_1_plus_2_times_3) =
     Inr (binary_node (mk_token ''+'' LX_OPERATOR 2)
            (leaf_node AST_INTEGER (mk_token ''1'' LX_INTEGER 0))
            (binary_node (mk_token ''*'' LX_OPERATOR 6)
               (leaf_node AST_INTEGER (mk_token ''2'' LX_INTEGER 4))
               (leaf_node AST_INTEGER (mk_token ''3'' LX_INTEGER 8))),
          mk_parser 5 tokens_1_plus_2_times_3)
   \<and> parse_expression 4 (mk_parser 0 tokens_1_minus_2_plus_3) =
     Inr (binary_node (mk_token ''+'' LX_OPERATOR 6)
            (binary_node (mk_token ''-'' LX_OPERATOR 2)
               (leaf_node AST_INTEGER (mk_token ''1'' LX_INTEGER 0))
               (leaf_node AST_INTEGER (mk_token ''2'' LX_INTEGER 4)))
            (leaf_node AST_INTEGER (mk_token ''3'' LX_INTEGER 8)),
          mk_parser 5 tokens_1_minus_2_plus_3)"
proof -
  let ?one = "leaf_node AST_INTEGER (mk_token ''1'' LX_INTEGER 0)"
  let ?two = "leaf_node AST_INTEGER (mk_token ''2'' LX_INTEGER 4)"
  let ?three = "leaf_node AST_INTEGER (mk_token ''3'' LX_INTEGER 8)"
  have r: "parse_expression 4 (mk_parser 0 tokens_1_plus_2_times_3) =
      Inr (if (10::int) \<le> 9
           then binary_node (mk_token ''*'' LX_OPERATOR 6)
                  (binary_node (mk_token ''+'' LX_OPERATOR 2) ?one ?two) ?three
           else binary_node (mk_token ''+'' LX_OPERATOR 2) ?one
                  (binary_node (mk_token ''*'' LX_OPERATOR 6) ?two ?three),
           mk_parser 5 tokens_1_plus_2_times_3)"
    by (rule parse_expression_grouping[where n = 1 and p_a = "mk_parser 1 tokens_1_plus_2_times_3"
          and p_b = "mk_parser 3 tokens_1_plus_2_times_3", THEN conjunct1])
       (simp_all add: tokens_1_plus_2_times_3_def parse_eval)
  have l: "parse_expression 4 (mk_parser 0 tokens_1_minus_2_plus_3) =
      Inr (if (9::int) \<le> 9
           then binary_node (mk_token ''+'' LX_OPERATOR 6)
                  (binary_node (mk_token ''-'' LX_OPERATOR 2) ?one ?two) ?three
           else binary_node (mk_token ''-'' LX_OPERATOR 2) ?one
                  (binary_node (mk_token ''+'' LX_OPERATOR 6) ?two ?three),
           mk_parser 5 tokens_1_minus_2_plus_3)"
    by (rule parse_expression_grouping[where n = 1 and p_a = "mk_parser 1 tokens_1_minus_2_plus_3"
          and p_b = "mk_parser 3 tokens_1_minus_2_plus_3", THEN conjunct1])
       (simp_all add: tokens_1_minus_2_plus_3_def parse_eval)
  from r l show ?thesis by simp
qed


section \<open>The precedence table\<close>

text \<open>
  C2 (as the code has it): \<open>precedence\<close> gives \<open>*\<close> \<open>/\<close> \<open>%\<close> level 10, \<open>+\<close> \<open>-\<close> level 9,
  \<open><\<close> \<open>>\<close> \<open><=\<close> \<open>>=\<close> level 8, \<open>==\<close> \<open>!=\<close> level 7, \<open>&\<close> level 6, \<open>^\<close> level 5,
  \<open>|\<close> level 4, \<open>&&\<close> level 3 and \<open>||\<close> level 2. Every other operator text takes the level of
  its first character; it is an "Unknown operator recieved" parse error exactly when it is
  empty or its first character is none of \<open>| ^ & < > + - * / %\<close>.
\<close>

theorem precedence_level_table:
  "precedence_level ''*'' = Some 10 \<and> precedence_level ''/'' = Some 10
   \<and> precedence_level ''%'' = Some 10 \<and> precedence_level ''+'' = Some 9
   \<and> precedence_level ''-'' = Some 9 \<and> precedence_level ''<'' = Some 8
   \<and> precedence_level ''>'' = Some 8 \<and> precedence_level ''<='' = Some 8
   \<and> precedence_level ''>='' = Some 8 \<and> precedence_level ''=='' = Some 7
   \<and> precedence_level ''!='' = Some 7 \<and> precedence_level ''&'' = Some 6
   \<and> precedence_level ''^'' = Some 5 \<and> precedence_level ''|'' = Some 4
   \<and> precedence_level ''&&'' = Some 3 \<and> precedence_level ''||'' = Some 2
   \<and> (v \<notin> {''<='', ''>='', ''=='', ''!='', ''&&'', ''||''} \<longrightarrow>
        precedence_level v = (case v of [] \<Rightarrow> None | c # rest \<Rightarrow> precedence_level [c]))
   \<and> (precedence p opr = Inl (parsererror p ''Unknown operator recieved'') \<longleftrightarrow>
        tk_value opr \<notin> {''=='', ''!=''}
        \<and> (tk_value opr = [] \<or> hd (tk_value opr) \<notin> set ''|^&<>+-*/%''))
   \<and> (\<forall>l. precedence p opr = Inr l \<longleftrightarrow> precedence_level (tk_value opr) = Some l)"
proof -
  have rows: "precedence_level ''*'' = Some 10 \<and> precedence_level ''/'' = Some 10
   \<and> precedence_level ''%'' = Some 10 \<and> precedence_level ''+'' = Some 9
   \<and> precedence_level ''-'' = Some 9 \<and> precedence_level ''<'' = Some 8
   \<and> precedence_level ''>'' = Some 8 \<and> precedence_level ''<='' = Some 8
   \<and> precedence_level ''>='' = Some 8 \<and> precedence_level ''=='' = Some 7
   \<and> precedence_level ''!='' = Some 7 \<and> precedence_level ''&'' = Some 6
   \<and> precedence_level ''^'' = Some 5 \<and> precedence_level ''|'' = Some 4
   \<and> precedence_level ''&&'' = Some 3 \<and> precedence_level ''||'' = Some 2"
    by (simp add: precedence_level_def)
  have first: "v \<notin> {''<='', ''>='', ''=='', ''!='', ''&&'', ''||''} \<longrightarrow>
        precedence_level v = (case v of [] \<Rightarrow> None | c # rest \<Rightarrow> precedence_level [c])"
    by (cases v) (simp_all add: precedence_level_def)
  have none: "precedence_level w = None \<longleftrightarrow>
        w \<notin> {''=='', ''!=''} \<and> (w = [] \<or> hd w \<notin> set ''|^&<>+-*/%'')" for w
    by (cases w) (simp_all add: precedence_level_def)
  have err: "precedence p opr = Inl (parsererror p ''Unknown operator recieved'') \<longleftrightarrow>
        precedence_level (tk_value opr) = None"
    by (simp add: precedence_def split: option.splits)
  have ok: "\<forall>l. precedence p opr = Inr l \<longleftrightarrow> precedence_level (tk_value opr) = Some l"
    by (simp add: precedence_def split: option.splits)
  from rows first none[of "tk_value opr"] err ok show ?thesis by presburger
qed


theorem precedence_level_table_witness:
  "''+='' \<notin> {''<='', ''>='', ''=='', ''!='', ''&&'', ''||''}
   \<and> precedence_level ''+='' = Some 9
   \<and> precedence (mk_parser 0 [mk_token ''~'' LX_OPERATOR 0]) (mk_token ''~'' LX_OPERATOR 0) =
       Inl (ParseError ''Unknown operator recieved''
              \<lparr>col_pos = 0, line_pos = 0, char_offset = 0, line_offset = 0\<rparr>)
   \<and> precedence (mk_parser 0 []) (mk_token ''&&'' LX_OPERATOR 0) = Inr 3"
proof -
  have h: "''+='' \<notin> {''<='', ''>='', ''=='', ''!='', ''&&'', ''||''}" by simp
  have e: "tk_value (mk_token ''~'' LX_OPERATOR 0) \<notin> {''=='', ''!=''}
        \<and> (tk_value (mk_token ''~'' LX_OPERATOR 0) = []
            \<or> hd (tk_value (mk_token ''~'' LX_OPERATOR 0)) \<notin> set ''|^&<>+-*/%'')"
    by (simp add: mk_token_def)
  have pe: "parsererror (mk_parser 0 [mk_token ''~'' LX_OPERATOR 0]) ''Unknown operator recieved''
      = ParseError ''Unknown operator recieved''
              \<lparr>col_pos = 0, line_pos = 0, char_offset = 0, line_offset = 0\<rparr>"
    by (simp add: parsererror_def peek_def vector_get_def mk_parser_def mk_token_def)
  note t = precedence_level_table[of "''+=''" "mk_parser 0 [mk_token ''~'' LX_OPERATOR 0]"
      "mk_token ''~'' LX_OPERATOR 0"]
  note t2 = precedence_level_table[of "''+=''" "mk_parser 0 []" "mk_token ''&&'' LX_OPERATOR 0"]
  have a: "precedence_level ''+='' = Some 9" using t h by simp
  have b: "precedence (mk_parser 0 [mk_token ''~'' LX_OPERATOR 0]) (mk_token ''~'' LX_OPERATOR 0) =
       Inl (ParseError ''Unknown operator recieved''
              \<lparr>col_pos = 0, line_pos = 0, char_offset = 0, line_offset = 0\<rparr>)"
    using t e pe by simp
  have c: "precedence (mk_parser 0 []) (mk_token ''&&'' LX_OPERATOR 0) = Inr 3"
    using t2 by (simp add: mk_token_def)
  from h a b c show ?thesis by simp
qed


text \<open>
  Operator texts outside the table are not all errors: \<open>**\<close>, \<open>+=\<close> and \<open><<\<close> receive the
  levels of \<open>*\<close>, \<open>+\<close> and \<open><\<close>.
\<close>

theorem precedence_other_glyph_counterexample:
  "precedence (mk_parser 0 []) (mk_token ''**'' LX_OPERATOR 0) = Inr 10
   \<and> precedence (mk_parser 0 []) (mk_token ''+='' LX_OPERATOR 0) = Inr 9
   \<and> precedence (mk_parser 0 []) (mk_token ''<<'' LX_OPERATOR 0) = Inr 8"
  by (simp add: precedence_def precedence_level_def mk_token_def)


section \<open>The token helpers at the end of input\<close>

text \<open>
  C10 (as the code has it): when the parser is at the end of input, that is when its position
  is past the last token or the current token is \<open>LX_EOF\<close>, \<open>eat\<close> returns no token and
  \<open>consume_optional\<close> returns false, both leaving the parser unchanged, while \<open>consume\<close> does
  not return: it reports "Unexpected token" through \<open>parsererror\<close>, which ends the process.
  A token returned by \<open>eat\<close> is never the \<open>LX_EOF\<close> token.
\<close>

theorem end_of_input:
  "(is_empty p \<longrightarrow>
      eat p = (None, p) \<and> consume_optional p t = (False, p)
      \<and> consume p t = Inl (parsererror p ''Unexpected token''))
   \<and> (is_empty p \<longleftrightarrow> p_position p \<ge> length (p_tokens p) \<or> peek_type p = Some LX_EOF)
   \<and> (\<forall>tk p'. eat p = (Some tk, p') \<longrightarrow> tk_type tk \<noteq> LX_EOF)"
  by (auto simp: eat_def consume_optional_def consume_def is_empty_def peek_type_def peek_def
      vector_get_def split: if_splits)

theorem end_of_input_witness:
  "is_empty (mk_parser 1 [mk_token ''x'' LX_SYMBOL 0, mk_token [] LX_EOF 1])
   \<and> eat (mk_parser 1 [mk_token ''x'' LX_SYMBOL 0, mk_token [] LX_EOF 1]) =
       (None, mk_parser 1 [mk_token ''x'' LX_SYMBOL 0, mk_token [] LX_EOF 1])
   \<and> consume_optional (mk_parser 1 [mk_token ''x'' LX_SYMBOL 0, mk_token [] LX_EOF 1]) LX_EOF =
       (False, mk_parser 1 [mk_token ''x'' LX_SYMBOL 0, mk_token [] LX_EOF 1])
   \<and> consume (mk_parser 1 [mk_token ''x'' LX_SYMBOL 0, mk_token [] LX_EOF 1]) LX_EOF =
       Inl (ParseError ''Unexpected token''
              \<lparr>col_pos = 1, line_pos = 0, char_offset = 1, line_offset = 0\<rparr>)
   \<and> eat (mk_parser 0 [mk_token ''x'' LX_SYMBOL 0, mk_token [] LX_EOF 1]) =
       (Some (mk_token ''x'' LX_SYMBOL 0), mk_parser 1 [mk_token ''x'' LX_SYMBOL 0, mk_token [] LX_EOF 1])
   \<and> tk_type (mk_token ''x'' LX_SYMBOL 0) \<noteq> LX_EOF"
proof -
  let ?ts = "[mk_token ''x'' LX_SYMBOL 0, mk_token [] LX_EOF 1]"
  have e: "is_empty (mk_parser 1 ?ts)"
    by (simp add: is_empty_def peek_type_def peek_def vector_get_def mk_parser_def mk_token_def)
  have pe: "parsererror (mk_parser 1 ?ts) ''Unexpected token'' =
      ParseError ''Unexpected token'' \<lparr>col_pos = 1, line_pos = 0, char_offset = 1, line_offset = 0\<rparr>"
    by (simp add: parsererror_def peek_def vector_get_def mk_parser_def mk_token_def)
  have ea: "eat (mk_parser 0 ?ts) = (Some (mk_token ''x'' LX_SYMBOL 0), mk_parser 1 ?ts)"
    by (simp add: eat_def is_empty_def peek_type_def peek_def vector_get_def mk_parser_def
        mk_token_def)
  from end_of_input[of "mk_parser 1 ?ts" LX_EOF] e
  have 1: "eat (mk_parser 1 ?ts) = (None, mk_parser 1 ?ts)
      \<and> consume_optional (mk_parser 1 ?ts) LX_EOF = (False, mk_parser 1 ?ts)
      \<and> consume (mk_parser 1 ?ts) LX_EOF = Inl (parsererror (mk_parser 1 ?ts) ''Unexpected token'')"
    by blast
  from end_of_input[of "mk_parser 0 ?ts" LX_EOF] ea
  have 2: "tk_type (mk_token ''x'' LX_SYMBOL 0) \<noteq> LX_EOF" by blast
  from e 1 2 pe ea show ?thesis by simp
qed


text \<open>
  At the \<open>LX_EOF\<close> token \<open>consume\<close> ends in \<open>parsererror\<close>; it does not return a null
  token with the parser unchanged.
\<close>

theorem consume_at_eof_counterexample:
  "is_empty (mk_parser 1 [mk_token ''x'' LX_SYMBOL 0, mk_token [] LX_EOF 1])
   \<and> consume (mk_parser 1 [mk_token ''x'' LX_SYMBOL 0, mk_token [] LX_EOF 1]) LX_SYMBOL =
       Inl (ParseError ''Unexpected token''
              \<lparr>col_pos = 1, line_pos = 0, char_offset = 1, line_offset = 0\<rparr>)
   \<and> consume (mk_parser 1 [mk_token ''x'' LX_SYMBOL 0, mk_token [] LX_EOF 1]) LX_SYMBOL \<noteq>
       Inr (None, mk_parser 1 [mk_token ''x'' LX_SYMBOL 0, mk_token [] LX_EOF 1])"
  by (simp add: consume_def is_empty_def peek_type_def peek_def vector_get_def parsererror_def
      mk_parser_def mk_token_def)


section \<open>The shape of an else chain\<close>





















section \<open>Multi-character operators\<close>

text \<open>
  A lexer state is well formed when its lookahead is the character of the source behind the
  current offset; \<open>lexer_new\<close> establishes this and \<open>lexadvance\<close> keeps it.
\<close>

definition lexer_wf :: "lexer \<Rightarrow> bool" where
  "lexer_wf lx = (lx_lookahead lx = src_at (lx_source lx) (char_offset (lx_pos lx) + 1))"


lemma lexadvance_wf: "lexadvance lx = Inr (c, lx') \<Longrightarrow> lexer_wf lx'"
  by (auto simp: lexadvance_def lexer_wf_def Let_def split: option.splits if_splits)

lemma lexadvance_ok:
  "lx_lookahead lx = Some c \<Longrightarrow>
   \<exists>lx'. lexadvance lx = Inr (c, lx') \<and> lx_source lx' = lx_source lx
     \<and> char_offset (lx_pos lx') = char_offset (lx_pos lx) + 1
     \<and> lx_lookahead lx' = src_at (lx_source lx) (char_offset (lx_pos lx) + 2)"
  by (auto simp: lexadvance_def Let_def add.commute)





text \<open>The position \<open>lex\<close> gives to the token it returns: the lexer position, advanced by one.\<close>

definition token_pos :: "lexer \<Rightarrow> lxpos" where
  "token_pos lx =
     (clone_pos (lx_pos lx))\<lparr>col_pos := col_pos (clone_pos (lx_pos lx)) + 1,
                              char_offset := char_offset (clone_pos (lx_pos lx)) + 1\<rparr>"

lemma lex_not_word:
  assumes "lx_lookahead lx = Some la" "\<not> isalpha la" "la \<noteq> CHR ''_''" "\<not> isdigit la"
    "la \<noteq> CHR 0x22"
  shows "lex lx =
     (case check_pattern lx ''<-'' of
        Inl e \<Rightarrow> Inl e
      | Inr (True, lx') \<Rightarrow> lex_finish [] LX_ASSIGN (token_pos lx) lx'
      | Inr (False, lx') \<Rightarrow>
          (case check_pattern lx' ''<='' of
             Inl e \<Rightarrow> Inl e
           | Inr (True, lx'') \<Rightarrow> lex_finish [] LX_OPERATOR (token_pos lx) lx''
           | Inr (False, lx'') \<Rightarrow>
               (case check_pattern lx'' ''>='' of
                  Inl e \<Rightarrow> Inl e
                | Inr (True, lx3) \<Rightarrow> lex_finish [] LX_OPERATOR (token_pos lx) lx3
                | Inr (False, lx3) \<Rightarrow>
                    (case lexadvance lx3 of
                       Inl e \<Rightarrow> Inl e
                     | Inr (c, lx4) \<Rightarrow>
                         (case lex_single c lx4 of
                            Inl e \<Rightarrow> Inl e
                          | Inr (t, buf) \<Rightarrow> lex_finish buf t (token_pos lx) lx4)))))"
  unfolding lex_def Let_def token_pos_def using assms by simp









section \<open>The text carried by operator tokens\<close>

lemma determine_nature_range:
  "determine_nature s \<in> {LX_BOOL, LX_NULL, LX_RETURN, LX_SYMBOL}"
  by (simp add: determine_nature_def)

lemma lex_finish_token:
  "lex_finish buf t pos lx1 = Inr (tok, lx') \<Longrightarrow>
     tk_type tok = t \<and> tk_value tok = reduce_string_buffer buf \<and> lx' = lx1"
  by (auto simp: lex_finish_def lxtoken_new_def split: if_splits)

definition operator_glyphs :: "char set" where
  "operator_glyphs = set ''+-/*%<>&|^~''"

lemma lex_single_operator:
  "lex_single c lx = Inr (t, buf) \<Longrightarrow>
     (t = LX_OPERATOR \<longrightarrow> buf = [c] \<and> c \<in> operator_glyphs \<and> c \<noteq> CHR 0x00) \<and> t \<noteq> LX_ASSIGN"
  by (simp add: lex_single_def operator_glyphs_def split: if_splits)


text \<open>
  C9: every \<open>LX_ASSIGN\<close> token that \<open>lex\<close> returns comes from the pattern \<open><-\<close> and carries
  the empty text. Every \<open>LX_OPERATOR\<close> token either comes from one of the patterns \<open><=\<close> and
  \<open>>=\<close> and carries the empty text, or comes from the single-character switch, after all
  three patterns failed, and carries exactly the one character that was consumed.
\<close>

theorem lex_operator_value:
  assumes lx: "lex lx = Inr (tok, lx')"
  shows "(tk_type tok = LX_ASSIGN \<longrightarrow>
            tk_value tok = [] \<and> check_pattern lx ''<-'' = Inr (True, lx'))
       \<and> (tk_type tok = LX_OPERATOR \<longrightarrow>
            (tk_value tok = []
               \<and> (check_pattern lx ''<='' = Inr (True, lx') \<or> check_pattern lx ''>='' = Inr (True, lx')))
          \<or> (\<exists>c. tk_value tok = [c] \<and> c \<in> operator_glyphs \<and> lexadvance lx = Inr (c, lx')
                \<and> check_pattern lx ''<-'' = Inr (False, lx)
                \<and> check_pattern lx ''<='' = Inr (False, lx)
                \<and> check_pattern lx ''>='' = Inr (False, lx)))"
proof (cases "lx_lookahead lx")
  case None
  then show ?thesis using lx by (simp add: lex_def)
next
  case (Some la)
  show ?thesis
  proof (cases "isalpha la \<or> la = CHR ''_''")
    case True
    then have cond: "(isalpha la \<or> la = CHR ''_'') = True" by simp
    from lx obtain buf where "tk_type tok = determine_nature buf"
      unfolding lex_def Let_def Some option.case cond if_True
      by (cases "lex_symbol_loop lx []") (auto split: if_splits dest!: lex_finish_token)
    with determine_nature_range[of buf] show ?thesis by auto
  next
    case nsym: False
    show ?thesis
    proof (cases "isdigit la")
      case True
      with Some nsym lx have "tk_type tok = LX_INTEGER"
        by (auto simp: lex_def Let_def split: sum.splits dest!: lex_finish_token)
      then show ?thesis by simp
    next
      case nint: False
      show ?thesis
      proof (cases "la = CHR 0x22")
        case True
        with Some nsym nint lx have "tk_type tok = LX_STRING"
          by (auto simp: lex_def Let_def split: sum.splits dest!: lex_finish_token)
        then show ?thesis by simp
      next
        case nstr: False
        from nsym have n1: "\<not> isalpha la" and n2: "la \<noteq> CHR ''_''" by simp_all
        note * = lx[unfolded lex_not_word[OF Some n1 n2 nint nstr]]
        show ?thesis
        proof (cases "check_pattern lx ''<-''")
          case (Inl e) with * show ?thesis by simp
        next
          case (Inr r1)
          obtain b1 lx1 where r1: "r1 = (b1, lx1)" by (cases r1)
          show ?thesis
          proof (cases b1)
            case True
            with * Inr r1 show ?thesis
              by (auto dest!: lex_finish_token simp: reduce_string_buffer_def)
          next
            case False
            with Inr r1 have lx1: "lx1 = lx" by (auto dest: check_pattern_False)
            show ?thesis
            proof (cases "check_pattern lx ''<=''")
              case (Inl e) with * Inr r1 False lx1 show ?thesis by simp
            next
              case r2: (Inr r2)
              obtain b2 lx2 where r2': "r2 = (b2, lx2)" by (cases r2)
              show ?thesis
              proof (cases b2)
                case True
                with * Inr r1 False lx1 r2 r2' show ?thesis
                  by (auto dest!: lex_finish_token simp: reduce_string_buffer_def)
              next
                case b2: False
                with r2 r2' have lx2: "lx2 = lx" by (auto dest: check_pattern_False)
                show ?thesis
                proof (cases "check_pattern lx ''>=''")
                  case (Inl e) with * Inr r1 False lx1 r2 r2' b2 lx2 show ?thesis by simp
                next
                  case r3: (Inr r3)
                  obtain b3 lx3 where r3': "r3 = (b3, lx3)" by (cases r3)
                  show ?thesis
                  proof (cases b3)
                    case True
                    with * Inr r1 False lx1 r2 r2' b2 lx2 r3 r3' show ?thesis
                      by (auto dest!: lex_finish_token simp: reduce_string_buffer_def)
                  next
                    case b3: False
                    with r3 r3' have lx3: "lx3 = lx" by (auto dest: check_pattern_False)
                    from * Inr r1 False lx1 r2 r2' b2 lx2 r3 r3' b3 lx3
                    obtain c t buf where adv: "lexadvance lx = Inr (c, lx')"
                      and sg: "lex_single c lx' = Inr (t, buf)"
                      and ty: "tk_type tok = t" and va: "tk_value tok = reduce_string_buffer buf"
                      by (auto split: sum.splits dest!: lex_finish_token)
                    from lex_single_operator[OF sg] ty va
                    have "tk_type tok \<noteq> LX_ASSIGN"
                      "tk_type tok = LX_OPERATOR \<longrightarrow> tk_value tok = [c] \<and> c \<in> operator_glyphs"
                      by (auto simp: reduce_string_buffer_def)
                    with adv Inr r1 False lx1 r2 r2' b2 lx2 r3 r3' b3 lx3 show ?thesis by auto
                  qed
                qed
              qed
            qed
          qed
        qed
      qed
    qed
  qed
qed


theorem lex_operator_value_witness:
  "lex (lexer_new ''<='') =
     Inr (mk_token [] LX_OPERATOR 0,
          \<lparr>lx_pos = \<lparr>col_pos = 1, line_pos = 0, char_offset = 1, line_offset = 0\<rparr>,
             lx_source = ''<='', lx_current = CHR ''='', lx_lookahead = Some CHR 0x00\<rparr>)
   \<and> tk_value (mk_token [] LX_OPERATOR 0) = []
   \<and> lex (lexer_new ''<'') =
     Inr (mk_token ''<'' LX_OPERATOR 0,
          \<lparr>lx_pos = \<lparr>col_pos = 0, line_pos = 0, char_offset = 0, line_offset = 0\<rparr>,
             lx_source = ''<'', lx_current = CHR ''<'', lx_lookahead = Some CHR 0x00\<rparr>)
   \<and> tk_value (mk_token ''<'' LX_OPERATOR 0) = ''<''
   \<and> lex (lexer_new ''<-'') =
     Inr (mk_token [] LX_ASSIGN 0,
          \<lparr>lx_pos = \<lparr>col_pos = 1, line_pos = 0, char_offset = 1, line_offset = 0\<rparr>,
             lx_source = ''<-'', lx_current = CHR ''-'', lx_lookahead = Some CHR 0x00\<rparr>)
   \<and> tk_value (mk_token [] LX_ASSIGN 0) = []"
proof -
  have h1: "lex (lexer_new ''<='') =
     Inr (mk_token [] LX_OPERATOR 0,
          \<lparr>lx_pos = \<lparr>col_pos = 1, line_pos = 0, char_offset = 1, line_offset = 0\<rparr>,
             lx_source = ''<='', lx_current = CHR ''='', lx_lookahead = Some CHR 0x00\<rparr>)"
    by (simp add: lex_eval mk_token_def)
  have h2: "lex (lexer_new ''<'') =
     Inr (mk_token ''<'' LX_OPERATOR 0,
          \<lparr>lx_pos = \<lparr>col_pos = 0, line_pos = 0, char_offset = 0, line_offset = 0\<rparr>,
             lx_source = ''<'', lx_current = CHR ''<'', lx_lookahead = Some CHR 0x00\<rparr>)"
    by (simp add: lex_eval mk_token_def)
  have h3: "lex (lexer_new ''<-'') =
     Inr (mk_token [] LX_ASSIGN 0,
          \<lparr>lx_pos = \<lparr>col_pos = 1, line_pos = 0, char_offset = 1, line_offset = 0\<rparr>,
             lx_source = ''<-'', lx_current = CHR ''-'', lx_lookahead = Some CHR 0x00\<rparr>)"
    by (simp add: lex_eval mk_token_def)
  have t: "tk_type (mk_token [] LX_ASSIGN 0) = LX_ASSIGN" by (simp add: mk_token_def)
  from lex_operator_value[OF h3] t have v3: "tk_value (mk_token [] LX_ASSIGN 0) = []" by blast
  have v1: "tk_value (mk_token [] LX_OPERATOR 0) = []"
    and v2: "tk_value (mk_token ''<'' LX_OPERATOR 0) = ''<''"
    by (simp_all add: mk_token_def)
  from h1 h2 h3 v1 v2 v3 show ?thesis by simp
qed


section \<open>String literals without a closing quote\<close>

text \<open>
  When no closing quote follows, the loop of the string case consumes the terminating NUL like
  any other character and goes on behind it: \<open>lex\<close> ends by inspecting a byte that is not part
  of the source (or, for a long rest of the source, by overflowing \<^verbatim>\<open>buf\<close>). It never calls
  \<open>lexerror\<close>.
\<close>

lemma lex_string_loop_unterminated:
  "lexer_wf lx \<Longrightarrow> 0 \<le> char_offset (lx_pos lx) + 1 \<Longrightarrow>
   CHR 0x22 \<notin> set (drop (nat (char_offset (lx_pos lx) + 1)) (lx_source lx)) \<Longrightarrow>
   lex_string_loop lx buf = Inl ReadPastEnd \<or> lex_string_loop lx buf = Inl BufferOverflow"
proof (induction lx buf rule: lex_string_loop.induct)
  case (1 lx buf)
  let ?i = "char_offset (lx_pos lx) + 1"
  show ?case
  proof (cases "lexadvance lx")
    case (Inl e)
    then have "e = ReadPastEnd" by (auto simp: lexadvance_def Let_def split: option.splits if_splits)
    with Inl have "lex_string_loop lx buf = Inl ReadPastEnd"
      by (subst lex_string_loop.simps) simp
    then show ?thesis by simp
  next
    case (Inr r)
    obtain c lx1 where r: "r = (c, lx1)" by (cases r)
    with Inr have adv: "lexadvance lx = Inr (c, lx1)" by simp
    from lexadvance_char[OF adv] "1.prems"(1) have c: "src_at (lx_source lx) ?i = Some c"
      by (simp add: lexer_wf_def)
    have cq: "c \<noteq> CHR 0x22"
    proof (cases "?i < int (length (lx_source lx))")
      case True
      with "1.prems"(2) c have "c = lx_source lx ! nat ?i" by (simp add: src_at_def)
      moreover from True "1.prems"(2) have "lx_source lx ! nat ?i \<in> set (drop (nat ?i) (lx_source lx))"
        by (metis Cons_nth_drop_Suc list.set_intros(1) nat_less_iff of_nat_less_iff nat_int)
      ultimately show ?thesis using "1.prems"(3) by auto
    next
      case False
      with c show ?thesis by (auto simp: src_at_def split: if_splits)
    qed
    from adv have off: "char_offset (lx_pos lx1) = char_offset (lx_pos lx) + 1"
      and src: "lx_source lx1 = lx_source lx"
      by (auto simp: lexadvance_def Let_def split: option.splits if_splits)
    have wf1: "lexer_wf lx1" using adv by (rule lexadvance_wf)
    have pos1: "0 \<le> char_offset (lx_pos lx1) + 1" using off "1.prems"(2) by simp
    have "set (drop (nat (char_offset (lx_pos lx1) + 1)) (lx_source lx1))
          \<subseteq> set (drop (nat ?i) (lx_source lx))"
      using off src "1.prems"(2) by (simp add: nat_add_distrib set_drop_subset_set_drop)
    with "1.prems"(3) have nq1: "CHR 0x22 \<notin> set (drop (nat (char_offset (lx_pos lx1) + 1)) (lx_source lx1))"
      by blast
    show ?thesis
    proof (cases "buf_store buf c")
      case (Inl e)
      then have "e = BufferOverflow" by (auto simp: buf_store_def split: if_splits)
      with Inl adv cq have "lex_string_loop lx buf = Inl BufferOverflow"
        by (subst lex_string_loop.simps) simp
      then show ?thesis by simp
    next
      case st: (Inr buf')
      from adv cq st have "lex_string_loop lx buf = lex_string_loop lx1 buf'"
        by (subst lex_string_loop.simps) simp
      with "1.IH"[OF adv refl cq st wf1 pos1 nq1] show ?thesis by simp
    qed
  qed
qed


lemma lex_unterminated_string:
  assumes wf: "lexer_wf lx" and nonneg: "0 \<le> char_offset (lx_pos lx) + 1"
    and quote: "src_at (lx_source lx) (char_offset (lx_pos lx) + 1) = Some (CHR 0x22)"
    and unclosed: "CHR 0x22 \<notin> set (drop (nat (char_offset (lx_pos lx) + 2)) (lx_source lx))"
  shows "lex lx = Inl ReadPastEnd \<or> lex lx = Inl BufferOverflow"
proof -
  from wf quote have la: "lx_lookahead lx = Some (CHR 0x22)" by (simp add: lexer_wf_def)
  from lexadvance_ok[OF la] obtain lx1 where
    adv: "lexadvance lx = Inr (CHR 0x22, lx1)" and src: "lx_source lx1 = lx_source lx"
    and off: "char_offset (lx_pos lx1) = char_offset (lx_pos lx) + 1" by blast
  have wf1: "lexer_wf lx1" using adv by (rule lexadvance_wf)
  from off nonneg have pos1: "0 \<le> char_offset (lx_pos lx1) + 1" by simp
  from off src unclosed have
    nq: "CHR 0x22 \<notin> set (drop (nat (char_offset (lx_pos lx1) + 1)) (lx_source lx1))"
    by (simp add: add.assoc)
  have "lex lx = (case lex_string_loop lx1 [] of
                    Inl e \<Rightarrow> Inl e
                  | Inr (buf, lx') \<Rightarrow> lex_finish buf LX_STRING (token_pos lx) lx')"
    unfolding lex_def Let_def token_pos_def
    by (simp add: la adv isalpha_def isdigit_def)
  with lex_string_loop_unterminated[OF wf1 pos1 nq, of "[]"] show ?thesis by auto
qed


text \<open>
  C7 (the code at the input \<^verbatim>\<open>"abc\<close>): \<open>lexify\<close> does not end in a lexical error; it reads
  past the end of the source.
\<close>

theorem lexify_unterminated_string:
  "lexify (lexer_new (CHR 0x22 # ''abc'')) [] = Inl ReadPastEnd"
  by (simp add: lex_eval)

end
